theory Spec2Isabelle
  imports Complex_Main
begin

section \<open>Data model\<close>

text \<open>
  The realtime session pipeline of \<^verbatim>\<open>App.tsx\<close> (first component of the file, lines 208-621)
  as a shallow embedding. Every \<^verbatim>\<open>useRef\<close> cell and every \<^verbatim>\<open>useState\<close> cell the
  pipeline reads or writes is a field of the record \<open>app\<close>; a callback is a function from
  \<open>app\<close> to \<open>app\<close> that runs to completion (the event loop is single threaded, and a
  callback is taken as one atomic transition, also across its \<^verbatim>\<open>await\<close>).

  JavaScript strings are \<open>string\<close>; a character stands for one code unit in the range
  0 to 255. Times of the audio clock are \<open>real\<close> (the source uses doubles; the arithmetic
  is \<open>max\<close> and \<open>+\<close>, taken without rounding). \<^verbatim>\<open>Date.now()\<close> is an \<open>int\<close> of milliseconds.
\<close>

datatype role = User | Model

record TranscriptionEntry =
  role :: role
  "text" :: string
  timestamp :: int

text \<open>The two-field objects \<^verbatim>\<open>{ user: '', model: '' }\<close>.\<close>

record text_pair =
  user :: string
  model :: string

definition empty_pair :: text_pair where
  "empty_pair = \<lparr> user = [], model = [] \<rparr>"

text \<open>
  A thrown value: an \<^verbatim>\<open>Error\<close> with its message, or a value that is not an instance of
  \<^verbatim>\<open>Error\<close>.
\<close>

datatype exn = Error string | NonError

text \<open>
  An \<^verbatim>\<open>AudioBuffer\<close>: its \<^verbatim>\<open>duration\<close> is its length in sample frames over its sample
  rate.
\<close>

record AudioBuffer =
  bufLength :: nat
  sampleRate :: nat

definition duration :: "AudioBuffer \<Rightarrow> real" where
  "duration b = real (bufLength b) / real (sampleRate b)"

datatype node = ScriptProcessor | MediaSource

text \<open>
  The history of calls into the platform and of the writes whose order matters, oldest
  first. It is a ghost field of the state: no code reads it. \<open>SourceStart src when d\<close> is
  \<^verbatim>\<open>source.start(when)\<close> on a source whose buffer lasts \<open>d\<close>; \<open>GenerateContent\<close> carries the
  key, the job description and resume given to the prompt, the transcript and the frames.
\<close>

datatype effect =
    SetSessionOpen bool
  | SessionClose
  | Disconnect node
  | TrackStop nat
  | SourceStart nat real real
  | SourceStop nat
  | SourcesClear
  | CursorReset
  | SendFrame string
  | ConsoleError string "exn option"
  | GenerateContent string "string option" "string option" "TranscriptionEntry list" "string list"

record app =
  \<comment> \<open>refs\<close>
  outputAudioContextRef :: bool
  nextStartTimeRef :: real
  sourcesRef :: "nat list"
  sessionRef :: bool
  streamRef :: "nat list option"
  scriptProcessorRef :: bool
  mediaSourceRef :: bool
  transcriptionBufferRef :: text_pair
  isSessionOpenRef :: bool
  pendingTextRef :: text_pair
  rafRef :: bool
  capturedFramesRef :: "string list"
  lastFrameCaptureTimeRef :: int
  interviewContextApiKey :: string
  interviewContextJd :: string
  interviewContextResume :: string
  \<comment> \<open>component state\<close>
  isActive :: bool
  isConnecting :: bool
  isSpeaking :: bool
  transcriptions :: "TranscriptionEntry list"
  error :: "string option"
  statusMessage :: string
  realtimeText :: text_pair
  endFeedback :: "string option"
  isGeneratingFeedback :: bool
  \<comment> \<open>platform: the next fresh \<^verbatim>\<open>AudioBufferSourceNode\<close>, and the history\<close>
  nextSourceId :: nat
  effects :: "effect list"

text \<open>
  The fields are: \<open>outputAudioContextRef\<close>, \<open>sessionRef\<close>, \<open>scriptProcessorRef\<close>,
  \<open>mediaSourceRef\<close> hold whether the ref is non-null; \<open>streamRef\<close> is \<open>None\<close> for null and
  otherwise the tracks of the stream; \<open>sourcesRef\<close> is the \<^verbatim>\<open>Set\<close> of playing sources in
  insertion order; \<open>rafRef\<close> holds whether an animation-frame handle is stored.
\<close>

definition emit :: "effect \<Rightarrow> app \<Rightarrow> app" where
  "emit e s = s\<lparr> effects := effects s @ [e] \<rparr>"

definition initial :: app where
  "initial = \<lparr> outputAudioContextRef = False, nextStartTimeRef = 0, sourcesRef = [],
     sessionRef = False, streamRef = None, scriptProcessorRef = False, mediaSourceRef = False,
     transcriptionBufferRef = empty_pair, isSessionOpenRef = False,
     pendingTextRef = empty_pair, rafRef = False, capturedFramesRef = [],
     lastFrameCaptureTimeRef = 0, interviewContextApiKey = [], interviewContextJd = [],
     interviewContextResume = [],
     isActive = False, isConnecting = False, isSpeaking = False, transcriptions = [],
     error = None, statusMessage = [], realtimeText = empty_pair, endFeedback = None,
     isGeneratingFeedback = False, nextSourceId = 0, effects = [] \<rparr>"

section \<open>JavaScript primitives\<close>

text \<open>
  \<^verbatim>\<open>String.prototype.trim\<close>: the white space and line terminator code units below 256
  are TAB, LF, VT, FF, CR, SPACE and NBSP.
\<close>

definition isWhiteSpace :: "char \<Rightarrow> bool" where
  "isWhiteSpace c = (c \<in> {CHR 0x09, CHR 0x0A, CHR 0x0B, CHR 0x0C, CHR 0x0D, CHR 0x20, CHR 0xA0})"

definition trim :: "string \<Rightarrow> string" where
  "trim s = rev (dropWhile isWhiteSpace (rev (dropWhile isWhiteSpace s)))"

text \<open>\<^verbatim>\<open>a || b\<close> on an optional string: \<^verbatim>\<open>undefined\<close> and \<^verbatim>\<open>''\<close> are falsy.\<close>

definition orElse :: "string option \<Rightarrow> string \<Rightarrow> string" where
  "orElse a b = (case a of None \<Rightarrow> b | Some t \<Rightarrow> if t = [] then b else t)"

text \<open>\<^verbatim>\<open>String.prototype.includes\<close>.\<close>

fun startsWith :: "string \<Rightarrow> string \<Rightarrow> bool" where
  "startsWith s [] = True"
| "startsWith [] (c # cs) = False"
| "startsWith (d # ds) (c # cs) = (d = c \<and> startsWith ds cs)"

fun includesStr :: "string \<Rightarrow> string \<Rightarrow> bool" where
  "includesStr [] sub = (sub = [])"
| "includesStr (d # ds) sub = (startsWith (d # ds) sub \<or> includesStr ds sub)"

text \<open>\<^verbatim>\<open>Set.prototype.add\<close> and \<^verbatim>\<open>delete\<close> on the insertion-ordered set.\<close>

definition set_add :: "nat \<Rightarrow> nat list \<Rightarrow> nat list" where
  "set_add x xs = (if x \<in> set xs then xs else xs @ [x])"

definition set_delete :: "nat \<Rightarrow> nat list \<Rightarrow> nat list" where
  "set_delete x xs = removeAll x xs"

section \<open>The message handler\<close>

text \<open>
  The fields of an inbound message that \<^verbatim>\<open>handleMessage\<close> reads, each through optional
  chaining: \<^verbatim>\<open>serverContent?.modelTurn?.parts?.[0]?.inlineData?.data\<close>,
  \<^verbatim>\<open>serverContent?.interrupted\<close>, \<^verbatim>\<open>serverContent?.inputTranscription?.text\<close>,
  \<^verbatim>\<open>serverContent?.outputTranscription?.text\<close> and \<^verbatim>\<open>serverContent?.turnComplete\<close>.
  A message that is \<^verbatim>\<open>null\<close> or \<^verbatim>\<open>undefined\<close> is \<open>None\<close>: reading \<^verbatim>\<open>msg.serverContent\<close>
  throws a TypeError there.
\<close>

record server_message =
  audioData :: "string option"
  interrupted :: bool
  inputTranscriptionText :: "string option"
  outputTranscriptionText :: "string option"
  turnComplete :: bool

text \<open>
  What the handler reads from outside: \<open>envPlatform\<close> tells what a call into the platform
  throws, \<open>decodeAudioData\<close> stands for
  \<^verbatim>\<open>decodeAudioData(decode(audioData), ctx, 24000, 1)\<close> of the audio-processing service
  (\<open>Inl\<close> when it throws), \<open>currentTime\<close> is \<^verbatim>\<open>ctx.currentTime\<close>, and \<open>dateNow1\<close>,
  \<open>dateNow2\<close> are the first and the second reading of \<^verbatim>\<open>Date.now()\<close>.
\<close>

record msg_env =
  envPlatform :: "effect \<Rightarrow> exn option"
  decodeAudioData :: "string \<Rightarrow> exn + AudioBuffer"
  currentTime :: real
  dateNow1 :: int
  dateNow2 :: int

text \<open>
  A block that may throw returns the state it reached and the exception, if any.
\<close>

type_synonym attempt = "app \<times> exn option"

definition try_catch :: "attempt \<Rightarrow> (exn \<Rightarrow> app \<Rightarrow> attempt) \<Rightarrow> attempt" where
  "try_catch body handler = (case body of (s, None) \<Rightarrow> (s, None) | (s, Some e) \<Rightarrow> handler e s)"

definition andThen :: "attempt \<Rightarrow> (app \<Rightarrow> attempt) \<Rightarrow> attempt" where
  "andThen a f = (case a of (s, None) \<Rightarrow> f s | (s, Some e) \<Rightarrow> (s, Some e))"

text \<open>
  Lines 373-392: response audio is scheduled on the output context. The decoding may throw;
  \<^verbatim>\<open>createBufferSource\<close>, \<^verbatim>\<open>connect\<close> and \<^verbatim>\<open>start\<close> on the fresh source are taken to
  return. The source is named by a fresh number.
\<close>

definition audioBranch :: "msg_env \<Rightarrow> server_message \<Rightarrow> app \<Rightarrow> attempt" where
  "audioBranch env m s =
     (case audioData m of
        None \<Rightarrow> (s, None)
      | Some d \<Rightarrow>
          if d = [] then (s, None)
          else
            let s1 = s\<lparr> isSpeaking := True \<rparr> in
            if outputAudioContextRef s1 then
              let s2 = s1\<lparr> nextStartTimeRef := max (nextStartTimeRef s1) (currentTime env) \<rparr> in
              (case decodeAudioData env d of
                 Inl e \<Rightarrow> (s2, Some e)
               | Inr audioBuffer \<Rightarrow>
                   let source = nextSourceId s2;
                       s3 = emit (SourceStart source (nextStartTimeRef s2) (duration audioBuffer))
                              (s2\<lparr> nextSourceId := Suc source \<rparr>);
                       s4 = s3\<lparr> nextStartTimeRef := nextStartTimeRef s3 + duration audioBuffer \<rparr>
                   in (s4\<lparr> sourcesRef := set_add source (sourcesRef s4) \<rparr>, None))
            else (s1, None))"

text \<open>
  A call into the platform that may throw: \<open>platform e\<close> is what the call throws, if
  anything. The call is recorded either way.
\<close>

definition invoke :: "(effect \<Rightarrow> exn option) \<Rightarrow> effect \<Rightarrow> app \<Rightarrow> attempt" where
  "invoke platform e s = (emit e s, platform e)"

text \<open>
  \<^verbatim>\<open>sourcesRef.current.forEach(s => { try { s.stop(); } catch (e) {} })\<close>: \<^verbatim>\<open>stop\<close> is
  called on every member, in insertion order; what it throws is dropped.
\<close>

fun stopEach :: "(effect \<Rightarrow> exn option) \<Rightarrow> nat list \<Rightarrow> app \<Rightarrow> attempt" where
  "stopEach platform [] s = (s, None)"
| "stopEach platform (src # rest) s =
     andThen (try_catch (invoke platform (SourceStop src) s) (\<lambda>e s'. (s', None)))
       (stopEach platform rest)"

definition stopSources :: "(effect \<Rightarrow> exn option) \<Rightarrow> app \<Rightarrow> attempt" where
  "stopSources platform s = stopEach platform (sourcesRef s) s"

definition clearSources :: "app \<Rightarrow> app" where
  "clearSources s = emit SourcesClear (s\<lparr> sourcesRef := [] \<rparr>)"

definition resetCursor :: "app \<Rightarrow> app" where
  "resetCursor s = emit CursorReset (s\<lparr> nextStartTimeRef := 0 \<rparr>)"

text \<open>Lines 394-402.\<close>

definition interruptBranch :: "msg_env \<Rightarrow> server_message \<Rightarrow> app \<Rightarrow> attempt" where
  "interruptBranch env m s =
     (if interrupted m
      then andThen (stopSources (envPlatform env) s)
             (\<lambda>s1. ((resetCursor (clearSources s1))\<lparr> isSpeaking := False \<rparr>, None))
      else (s, None))"

text \<open>
  Lines 405-430: the partial text goes to the accumulator and to the pending buffer, and
  one animation frame is requested unless a handle is stored.
\<close>

definition requestFrame :: "app \<Rightarrow> app" where
  "requestFrame s = (if \<not> rafRef s then s\<lparr> rafRef := True \<rparr> else s)"

definition inputBranch :: "server_message \<Rightarrow> app \<Rightarrow> app" where
  "inputBranch m s =
     (case inputTranscriptionText m of
        None \<Rightarrow> s
      | Some t \<Rightarrow>
          if t = [] then s
          else requestFrame
            (s\<lparr> transcriptionBufferRef :=
                   (transcriptionBufferRef s)\<lparr> user := user (transcriptionBufferRef s) @ t \<rparr>,
                 pendingTextRef :=
                   (pendingTextRef s)\<lparr> user := user (pendingTextRef s) @ t \<rparr> \<rparr>))"

definition outputBranch :: "server_message \<Rightarrow> app \<Rightarrow> app" where
  "outputBranch m s =
     (case outputTranscriptionText m of
        None \<Rightarrow> s
      | Some t \<Rightarrow>
          if t = [] then s
          else requestFrame
            (s\<lparr> transcriptionBufferRef :=
                   (transcriptionBufferRef s)\<lparr> model := model (transcriptionBufferRef s) @ t \<rparr>,
                 pendingTextRef :=
                   (pendingTextRef s)\<lparr> model := model (pendingTextRef s) @ t \<rparr> \<rparr>))"

text \<open>
  Lines 440-446: the entries one turn-complete appends. \<^verbatim>\<open>Date.now()\<close> is read once for
  each entry that is built.
\<close>

definition finalized :: "int \<Rightarrow> int \<Rightarrow> string \<Rightarrow> string \<Rightarrow> TranscriptionEntry list" where
  "finalized t1 t2 uText mText =
     (if uText \<noteq> [] then [\<lparr> role = User, text = uText, timestamp = t1 \<rparr>] else []) @
     (if mText \<noteq> [] then
        [\<lparr> role = Model, text = mText, timestamp = (if uText \<noteq> [] then t2 else t1) \<rparr>]
      else [])"

text \<open>Lines 431-450.\<close>

definition turnCompleteBranch :: "msg_env \<Rightarrow> server_message \<Rightarrow> app \<Rightarrow> app" where
  "turnCompleteBranch env m s =
     (if turnComplete m then
        let s1 = (if rafRef s then s\<lparr> rafRef := False \<rparr> else s);
            uText = trim (user (transcriptionBufferRef s1));
            mText = trim (model (transcriptionBufferRef s1));
            s2 = (if uText \<noteq> [] \<or> mText \<noteq> []
                  then s1\<lparr> transcriptions :=
                         transcriptions s1 @ finalized (dateNow1 env) (dateNow2 env) uText mText \<rparr>
                  else s1)
        in s2\<lparr> transcriptionBufferRef := empty_pair,
               pendingTextRef := empty_pair,
               realtimeText := empty_pair \<rparr>
      else s)"

text \<open>
  Lines 370-454: the body runs inside \<^verbatim>\<open>try\<close>; the handler of \<^verbatim>\<open>catch\<close> logs and returns.
\<close>

definition handleMessageBody :: "msg_env \<Rightarrow> server_message option \<Rightarrow> app \<Rightarrow> attempt" where
  "handleMessageBody env msg s =
     (case msg of
        None \<Rightarrow> (s, Some (Error ''TypeError''))
      | Some m \<Rightarrow>
          andThen (audioBranch env m s) (\<lambda>s1.
          andThen (interruptBranch env m s1) (\<lambda>s2.
            (turnCompleteBranch env m (outputBranch m (inputBranch m s2)), None))))"

definition handleMessage :: "msg_env \<Rightarrow> server_message option \<Rightarrow> app \<Rightarrow> attempt" where
  "handleMessage env msg s =
     try_catch (handleMessageBody env msg s)
       (\<lambda>e s'. (emit (ConsoleError ''Error handling message:'' (Some e)) s', None))"

text \<open>Lines 384-387: the \<^verbatim>\<open>onended\<close> callback of a source.\<close>

definition sourceEnded :: "nat \<Rightarrow> app \<Rightarrow> app" where
  "sourceEnded source s =
     (let s1 = s\<lparr> sourcesRef := set_delete source (sourcesRef s) \<rparr>
      in if length (sourcesRef s1) = 0 then s1\<lparr> isSpeaking := False \<rparr> else s1)"

text \<open>Lines 412-415: the animation-frame callback.\<close>

definition animationFrame :: "app \<Rightarrow> app" where
  "animationFrame s = s\<lparr> realtimeText := pendingTextRef s, rafRef := False \<rparr>"

section \<open>Teardown\<close>

text \<open>
  Lines 260-272: \<^verbatim>\<open>if (ref.current) { try { ref.current.disconnect(); } catch (e) {} ref.current = null; }\<close>
  for the script processor and for the media source.
\<close>

definition disconnectProcessor :: "(effect \<Rightarrow> exn option) \<Rightarrow> app \<Rightarrow> attempt" where
  "disconnectProcessor platform s =
     (if scriptProcessorRef s
      then andThen (try_catch (invoke platform (Disconnect ScriptProcessor) s) (\<lambda>e s'. (s', None)))
             (\<lambda>s1. (s1\<lparr> scriptProcessorRef := False \<rparr>, None))
      else (s, None))"

definition disconnectMediaSource :: "(effect \<Rightarrow> exn option) \<Rightarrow> app \<Rightarrow> attempt" where
  "disconnectMediaSource platform s =
     (if mediaSourceRef s
      then andThen (try_catch (invoke platform (Disconnect MediaSource) s) (\<lambda>e s'. (s', None)))
             (\<lambda>s1. (s1\<lparr> mediaSourceRef := False \<rparr>, None))
      else (s, None))"

text \<open>
  Lines 275-278: every track of the stream is stopped, outside any \<^verbatim>\<open>try\<close>;
  \<^verbatim>\<open>MediaStreamTrack.stop()\<close> has no failure case.
\<close>

definition stopStream :: "app \<Rightarrow> app" where
  "stopStream s =
     (case streamRef s of
        None \<Rightarrow> s
      | Some tracks \<Rightarrow> s\<lparr> effects := effects s @ map TrackStop tracks, streamRef := None \<rparr>)"

text \<open>Lines 255-286.\<close>

definition cleanup :: "(effect \<Rightarrow> exn option) \<Rightarrow> app \<Rightarrow> attempt" where
  "cleanup platform s =
     andThen (disconnectProcessor platform (emit (SetSessionOpen False) (s\<lparr> isSessionOpenRef := False \<rparr>)))
       (\<lambda>s1.
     andThen (disconnectMediaSource platform s1) (\<lambda>s2.
     andThen (stopSources platform (stopStream s2)) (\<lambda>s3.
       (resetCursor (clearSources s3), None))))"

section \<open>Feedback synthesizer\<close>

text \<open>
  Lines 289-334. The function is asynchronous: \<open>generateFeedbackStart\<close> is what runs before
  the \<^verbatim>\<open>await\<close> (the guard, the flag, the request), \<open>generateFeedbackSettle\<close> is what runs
  when the awaited call settles with \<open>outcome\<close>: \<open>Inl e\<close> when it rejects with \<open>e\<close>,
  \<open>Inr t\<close> when it resolves to a response whose \<^verbatim>\<open>text\<close> is \<open>t\<close> (\<open>None\<close> for
  \<^verbatim>\<open>undefined\<close>). \<open>generateFeedback\<close> is the two in sequence.
\<close>

definition failureMessage :: string where
  "failureMessage = ''Failed to generate feedback. Please check your API key and connection, then try again.''"

definition emptyResponseMessage :: string where
  "emptyResponseMessage = ''Unable to generate feedback. Please try again.''"

definition generateFeedbackStart ::
  "TranscriptionEntry list \<Rightarrow> string list \<Rightarrow> string option \<Rightarrow> string option \<Rightarrow> string option
     \<Rightarrow> app \<Rightarrow> app \<times> bool" where
  "generateFeedbackStart transcript videoFrames jd resume key s =
     (let feedbackApiKey = orElse key (interviewContextApiKey s) in
      if feedbackApiKey = [] \<or> length transcript = 0 then (s, False)
      else (emit (GenerateContent feedbackApiKey jd resume transcript videoFrames)
              (s\<lparr> isGeneratingFeedback := True \<rparr>), True))"

definition generateFeedbackSettle :: "exn + string option \<Rightarrow> app \<Rightarrow> attempt" where
  "generateFeedbackSettle outcome s =
     (case try_catch
             (case outcome of
                Inl err \<Rightarrow> (s, Some err)
              | Inr responseText \<Rightarrow>
                  (s\<lparr> endFeedback := Some (orElse responseText emptyResponseMessage) \<rparr>, None))
             (\<lambda>err s'. ((emit (ConsoleError ''Error generating feedback:'' (Some err)) s')
                          \<lparr> endFeedback := Some failureMessage \<rparr>, None))
      of (s1, thrown) \<Rightarrow> (s1\<lparr> isGeneratingFeedback := False \<rparr>, thrown))"

definition generateFeedback ::
  "exn + string option \<Rightarrow> TranscriptionEntry list \<Rightarrow> string list \<Rightarrow> string option
     \<Rightarrow> string option \<Rightarrow> string option \<Rightarrow> app \<Rightarrow> attempt" where
  "generateFeedback outcome transcript videoFrames jd resume key s =
     (case generateFeedbackStart transcript videoFrames jd resume key s of
        (s1, False) \<Rightarrow> (s1, None)
      | (s1, True) \<Rightarrow> generateFeedbackSettle outcome s1)"

section \<open>Stopping the session\<close>

text \<open>Lines 344-351.\<close>

definition closeSession :: "(effect \<Rightarrow> exn option) \<Rightarrow> app \<Rightarrow> attempt" where
  "closeSession platform s =
     (if sessionRef s
      then andThen
             (try_catch (invoke platform SessionClose s)
                (\<lambda>e s'. (emit (ConsoleError ''Error closing session:'' (Some e)) s', None)))
             (\<lambda>s1. (s1\<lparr> sessionRef := False \<rparr>, None))
      else (s, None))"

text \<open>
  Lines 336-367. \<open>currentTranscriptions\<close> is the value of the \<^verbatim>\<open>transcriptions\<close> state that
  the closure of \<^verbatim>\<open>stopSession\<close> holds (the state of the render that built the callback);
  it is a parameter for that reason. The call of \<^verbatim>\<open>generateFeedback\<close> is not awaited, so
  only its synchronous part belongs to this transition.
\<close>

definition stopSession :: "(effect \<Rightarrow> exn option) \<Rightarrow> TranscriptionEntry list \<Rightarrow> app \<Rightarrow> attempt" where
  "stopSession platform currentTranscriptions s =
     (let currentFrames = capturedFramesRef s;
          jd = interviewContextJd s;
          resume = interviewContextResume s;
          storedApiKey = interviewContextApiKey s
      in
      andThen (closeSession platform s) (\<lambda>s1.
      andThen (cleanup platform s1) (\<lambda>s2.
        let s3 = s2\<lparr> isActive := False, isConnecting := False, isSpeaking := False,
                     statusMessage := [], capturedFramesRef := [],
                     lastFrameCaptureTimeRef := 0 \<rparr>
        in if length currentTranscriptions > 0
           then (fst (generateFeedbackStart currentTranscriptions currentFrames
                        (Some jd) (Some resume) (Some storedApiKey) s3), None)
           else (s3, None))))"

section \<open>Frame sampler\<close>

definition FRAME_CAPTURE_INTERVAL :: int where
  "FRAME_CAPTURE_INTERVAL = 5000"

definition MAX_FRAMES_FOR_FEEDBACK :: nat where
  "MAX_FRAMES_FOR_FEEDBACK = 12"

text \<open>
  Lines 604-613: the part of \<^verbatim>\<open>handleFrame\<close> after the frame was sent; \<open>now\<close> is
  \<^verbatim>\<open>Date.now()\<close>. \<^verbatim>\<open>shift()\<close> on the array, which is non-empty there, drops its first
  element.
\<close>

definition retainFrame :: "int \<Rightarrow> string \<Rightarrow> app \<Rightarrow> app" where
  "retainFrame now base64 s =
     (if now - lastFrameCaptureTimeRef s \<ge> FRAME_CAPTURE_INTERVAL then
        let s1 = s\<lparr> lastFrameCaptureTimeRef := now \<rparr>;
            s2 = s1\<lparr> capturedFramesRef := capturedFramesRef s1 @ [base64] \<rparr>
        in if length (capturedFramesRef s2) > MAX_FRAMES_FOR_FEEDBACK
           then s2\<lparr> capturedFramesRef := tl (capturedFramesRef s2) \<rparr>
           else s2
      else s)"

text \<open>
  Lines 596-621. The callback is rebuilt whenever \<^verbatim>\<open>isActive\<close> changes, so the value it
  holds is the one of the state.
\<close>

definition handleFrame :: "(effect \<Rightarrow> exn option) \<Rightarrow> int \<Rightarrow> string \<Rightarrow> app \<Rightarrow> attempt" where
  "handleFrame platform now base64 s =
     (if isSessionOpenRef s \<and> sessionRef s \<and> isActive s then
        try_catch
          (andThen (invoke platform (SendFrame base64) s)
             (\<lambda>s1. (retainFrame now base64 s1, None)))
          (\<lambda>err s'.
             let s1 = (case err of
                         Error message \<Rightarrow>
                           if includesStr message ''CLOS'' then s'\<lparr> isSessionOpenRef := False \<rparr> else s'
                       | NonError \<Rightarrow> s')
             in (emit (ConsoleError ''Error sending frame:'' (Some err)) s1, None))
      else (s, None))"

section \<open>Runs and observations\<close>

text \<open>The handler on each message of a list, in arrival order, each with what it reads.\<close>

fun handleMessages :: "(msg_env \<times> server_message option) list \<Rightarrow> app \<Rightarrow> app" where
  "handleMessages [] s = s"
| "handleMessages ((env, msg) # rest) s = handleMessages rest (fst (handleMessage env msg s))"

text \<open>The calls that tear the session down.\<close>

fun teardownCall :: "effect \<Rightarrow> bool" where
  "teardownCall (SetSessionOpen b) = True"
| "teardownCall SessionClose = True"
| "teardownCall (Disconnect n) = True"
| "teardownCall (TrackStop k) = True"
| "teardownCall e = False"

text \<open>What a transition from \<open>s\<close> to \<open>s'\<close> added to the history.\<close>

definition added :: "app \<Rightarrow> app \<Rightarrow> effect list" where
  "added s s' = drop (length (effects s)) (effects s')"

text \<open>
  The session state machine (active, connecting, the open flag, the session handle, the
  microphone and its nodes) and the error surface are the same in \<open>s'\<close> as in \<open>s\<close>, and
  no teardown call was made in between.
\<close>

definition sessionUntouched :: "app \<Rightarrow> app \<Rightarrow> bool" where
  "sessionUntouched s s' =
     (isActive s' = isActive s \<and> isConnecting s' = isConnecting s \<and>
      isSessionOpenRef s' = isSessionOpenRef s \<and> sessionRef s' = sessionRef s \<and>
      streamRef s' = streamRef s \<and> scriptProcessorRef s' = scriptProcessorRef s \<and>
      mediaSourceRef s' = mediaSourceRef s \<and> error s' = error s \<and>
      statusMessage s' = statusMessage s \<and> endFeedback s' = endFeedback s \<and>
      take (length (effects s)) (effects s') = effects s \<and>
      list_all (\<lambda>e. \<not> teardownCall e) (added s s'))"

text \<open>The chunks handed to the output context: start time and duration, in call order.\<close>

fun schedule :: "effect list \<Rightarrow> (real \<times> real) list" where
  "schedule [] = []"
| "schedule (SourceStart src w d # es) = (w, d) # schedule es"
| "schedule (e # es) = schedule es"

text \<open>
  Of the chunks handed to the output context after the first \<open>n\<close> entries of the history,
  every one has a duration that is not negative and ends no later than the cursor, and
  each starts no earlier than the end of the one before it.
\<close>

definition chunksChainedFrom :: "nat \<Rightarrow> app \<Rightarrow> bool" where
  "chunksChainedFrom n s =
     (list_all (\<lambda>(w, d). 0 \<le> d \<and> w + d \<le> nextStartTimeRef s) (schedule (drop n (effects s))) \<and>
      successively (\<lambda>(w1, d1) (w2, d2). w1 + d1 \<le> w2) (schedule (drop n (effects s))))"

text \<open>A message that carries the interrupted signal.\<close>

definition isInterrupt :: "server_message option \<Rightarrow> bool" where
  "isInterrupt msg = (case msg of None \<Rightarrow> False | Some m \<Rightarrow> interrupted m)"

text \<open>The speaking signal agrees with the set of playing sources.\<close>

definition speakingAgrees :: "app \<Rightarrow> bool" where
  "speakingAgrees s = (isSpeaking s \<longleftrightarrow> sourcesRef s \<noteq> [])"

text \<open>
  The frame callback on each capture tick of a list, in order; a tick is what the platform
  throws, the reading of \<^verbatim>\<open>Date.now()\<close> and the frame.
\<close>

fun handleFrames :: "((effect \<Rightarrow> exn option) \<times> int \<times> string) list \<Rightarrow> app \<Rightarrow> app" where
  "handleFrames [] s = s"
| "handleFrames ((platform, now, base64) # rest) s =
     handleFrames rest (fst (handleFrame platform now base64 s))"

text \<open>
  The tick retains its frame: the guard of \<^verbatim>\<open>handleFrame\<close> holds, the send returns, and
  the capture interval has passed since \<^verbatim>\<open>lastFrameCaptureTimeRef\<close>.
\<close>

definition retains :: "(effect \<Rightarrow> exn option) \<Rightarrow> int \<Rightarrow> string \<Rightarrow> app \<Rightarrow> bool" where
  "retains platform now base64 s =
     (isSessionOpenRef s \<and> sessionRef s \<and> isActive s \<and> platform (SendFrame base64) = None \<and>
      now - lastFrameCaptureTimeRef s \<ge> FRAME_CAPTURE_INTERVAL)"

text \<open>The frames a list of ticks retains, each with its time, in order.\<close>

fun retained :: "((effect \<Rightarrow> exn option) \<times> int \<times> string) list \<Rightarrow> app \<Rightarrow> (int \<times> string) list" where
  "retained [] s = []"
| "retained ((platform, now, base64) # rest) s =
     (if retains platform now base64 s then [(now, base64)] else []) @
     retained rest (fst (handleFrame platform now base64 s))"

text \<open>The last \<open>n\<close> elements of a list, all of it when it is shorter.\<close>

definition lastN :: "nat \<Rightarrow> 'a list \<Rightarrow> 'a list" where
  "lastN n xs = drop (length xs - n) xs"

text \<open>
  The teardown steps the specification orders, and the order it gives them, for the
  resources a state holds: the open flag goes to false, then the audio nodes are
  disconnected, then the tracks of the microphone stream are stopped, then every playing
  source is stopped and the set cleared, then the cursor is reset.
\<close>

fun teardownStep :: "effect \<Rightarrow> bool" where
  "teardownStep (SetSessionOpen b) = True"
| "teardownStep (Disconnect n) = True"
| "teardownStep (TrackStop k) = True"
| "teardownStep (SourceStop src) = True"
| "teardownStep SourcesClear = True"
| "teardownStep CursorReset = True"
| "teardownStep e = False"

definition teardownOrder :: "app \<Rightarrow> effect list" where
  "teardownOrder s =
     [SetSessionOpen False] @
     (if scriptProcessorRef s then [Disconnect ScriptProcessor] else []) @
     (if mediaSourceRef s then [Disconnect MediaSource] else []) @
     (case streamRef s of None \<Rightarrow> [] | Some tracks \<Rightarrow> map TrackStop tracks) @
     map SourceStop (sourcesRef s) @ [SourcesClear] @
     [CursorReset]"

text \<open>The calls that act on a resource of the session.\<close>

fun resourceCall :: "effect \<Rightarrow> bool" where
  "resourceCall SessionClose = True"
| "resourceCall (Disconnect n) = True"
| "resourceCall (TrackStop k) = True"
| "resourceCall (SourceStop src) = True"
| "resourceCall e = False"

text \<open>The requests to the batch endpoint.\<close>

fun isRequest :: "effect \<Rightarrow> bool" where
  "isRequest (GenerateContent k jd resume transcript frames) = True"
| "isRequest e = False"

section \<open>Example inputs\<close>

definition quietEnv :: msg_env where
  "quietEnv = \<lparr> envPlatform = (\<lambda>e. None), decodeAudioData = (\<lambda>d. Inl (Error ''decode'')),
      currentTime = 0, dateNow1 = 1000, dateNow2 = 1001 \<rparr>"

definition emptyMsg :: server_message where
  "emptyMsg = \<lparr> audioData = None, interrupted = False, inputTranscriptionText = None,
      outputTranscriptionText = None, turnComplete = False \<rparr>"

definition turnCompleteMsg :: server_message where
  "turnCompleteMsg = emptyMsg\<lparr> turnComplete := True \<rparr>"

definition helloState :: app where
  "helloState = initial\<lparr> transcriptionBufferRef := \<lparr> user = '' hello '', model = '' '' \<rparr>,
      pendingTextRef := \<lparr> user = '' hello '', model = '' '' \<rparr> \<rparr>"

text \<open>A session that is open, with the output context made and nothing playing.\<close>

definition openState :: app where
  "openState = initial\<lparr> outputAudioContextRef := True, sessionRef := True,
      streamRef := Some [0], scriptProcessorRef := True, mediaSourceRef := True,
      isSessionOpenRef := True, isActive := True, interviewContextApiKey := ''key'' \<rparr>"

text \<open>An audio message whose payload does not decode, and the environment that says so.\<close>

definition badAudioMsg :: server_message where
  "badAudioMsg = emptyMsg\<lparr> audioData := Some ''%%%'' \<rparr>"

definition badAudioEnv :: msg_env where
  "badAudioEnv = quietEnv\<lparr> decodeAudioData := (\<lambda>d. Inl (Error ''InvalidCharacterError'')),
      currentTime := 1 \<rparr>"

text \<open>Two response chunks of 2.0 s and 1.5 s at 24 kHz, and an interrupt.\<close>

definition bufferA :: AudioBuffer where
  "bufferA = \<lparr> bufLength = 48000, sampleRate = 24000 \<rparr>"

definition envA :: msg_env where
  "envA = quietEnv\<lparr> decodeAudioData := (\<lambda>d. Inr bufferA), currentTime := 1 / 2 \<rparr>"

definition msgA :: server_message where
  "msgA = emptyMsg\<lparr> audioData := Some ''AAAA'' \<rparr>"

definition chunkA :: "msg_env \<times> server_message option" where
  "chunkA = (envA, Some msgA)"

definition chunkB :: "msg_env \<times> server_message option" where
  "chunkB = (quietEnv\<lparr> decodeAudioData := (\<lambda>d. Inr \<lparr> bufLength = 36000, sampleRate = 24000 \<rparr>),
               currentTime := 1 \<rparr>,
             Some (emptyMsg\<lparr> audioData := Some ''BBBB'' \<rparr>))"

definition interruptMsg :: server_message where
  "interruptMsg = emptyMsg\<lparr> interrupted := True \<rparr>"

text \<open>
  Capture ticks on which the send returns: thirteen of them five seconds apart, and one
  a second after the first.
\<close>

definition tick :: "int \<Rightarrow> string \<Rightarrow> (effect \<Rightarrow> exn option) \<times> int \<times> string" where
  "tick now base64 = ((\<lambda>e. None), now, base64)"

definition exampleTicks :: "((effect \<Rightarrow> exn option) \<times> int \<times> string) list" where
  "exampleTicks =
     [tick 5000 ''a'', tick 6000 ''skipped'', tick 10000 ''b'', tick 15000 ''c'',
      tick 20000 ''d'', tick 25000 ''e'', tick 30000 ''f'', tick 35000 ''g'',
      tick 40000 ''h'', tick 45000 ''i'', tick 50000 ''j'', tick 55000 ''k'',
      tick 60000 ''l'', tick 65000 ''m'']"

text \<open>
  A platform on which every call throws, a session in which two chunks play, and a
  transcript of one entry.
\<close>

definition throwing :: "effect \<Rightarrow> exn option" where
  "throwing e = Some (Error ''InvalidStateError'')"

definition playingState :: app where
  "playingState = handleMessages [chunkA, chunkB] openState"

definition oneEntry :: "TranscriptionEntry list" where
  "oneEntry = [\<lparr> role = User, text = ''hello'', timestamp = 1000 \<rparr>]"

section \<open>Basic facts\<close>

lemma andThen_None [simp]: "andThen (s, None) f = f s"
  by (simp add: andThen_def)

lemma andThen_Some [simp]: "andThen (s, Some e) f = (s, Some e)"
  by (simp add: andThen_def)

lemma try_catch_None [simp]: "try_catch (s, None) h = (s, None)"
  by (simp add: try_catch_def)

lemma try_catch_Some [simp]: "try_catch (s, Some e) h = h e s"
  by (simp add: try_catch_def)

lemma invoke_swallowed [simp]:
  "try_catch (invoke platform e s) (\<lambda>e s'. (s', None)) = (emit e s, None)"
  by (cases "platform e") (simp_all add: invoke_def)

lemma stopEach_eq:
  "stopEach platform xs s = (s\<lparr> effects := effects s @ map SourceStop xs \<rparr>, None)"
  by (induction xs arbitrary: s) (simp_all add: emit_def)

lemma stopSources_eq [simp]:
  "stopSources platform s = (s\<lparr> effects := effects s @ map SourceStop (sourcesRef s) \<rparr>, None)"
  by (simp add: stopSources_def stopEach_eq)

section \<open>Transcript assembler: turn-complete\<close>

lemma finalized_roles:
  "map role (finalized t1 t2 u m) =
     (if u \<noteq> [] then [User] else []) @ (if m \<noteq> [] then [Model] else [])"
  by (simp add: finalized_def)

lemma turnCompleteBranch_transcriptions:
  "turnComplete m \<Longrightarrow>
   transcriptions (turnCompleteBranch env m s) =
     transcriptions s @
       finalized (dateNow1 env) (dateNow2 env)
         (trim (user (transcriptionBufferRef s))) (trim (model (transcriptionBufferRef s)))"
  by (simp add: turnCompleteBranch_def Let_def finalized_def)

lemma turnCompleteBranch_reset:
  "turnComplete m \<Longrightarrow>
   transcriptionBufferRef (turnCompleteBranch env m s) = empty_pair \<and>
   pendingTextRef (turnCompleteBranch env m s) = empty_pair \<and>
   realtimeText (turnCompleteBranch env m s) = empty_pair"
  by (simp add: turnCompleteBranch_def Let_def)

text \<open>
  C1. On a turn-complete the transcript grows by the entries \<open>finalized\<close> builds from the
  two trimmed accumulators: one user entry when the trimmed user text is non-empty, then
  one model entry when the trimmed model text is non-empty, so at most one of each and the
  user entry first. Afterwards both accumulators and the pending buffer are empty, and
  with both trimmed accumulators empty the transcript is unchanged. A message that carries
  the turn-complete signal and nothing else is handled by this block alone.
\<close>

theorem turn_complete_emits:
  assumes "turnComplete m"
  shows "\<exists>new.
    transcriptions (turnCompleteBranch env m s) = transcriptions s @ new \<and>
    new = finalized (dateNow1 env) (dateNow2 env)
            (trim (user (transcriptionBufferRef s))) (trim (model (transcriptionBufferRef s))) \<and>
    map role new =
      (if trim (user (transcriptionBufferRef s)) \<noteq> [] then [User] else []) @
      (if trim (model (transcriptionBufferRef s)) \<noteq> [] then [Model] else []) \<and>
    length (filter (\<lambda>e. role e = User) new) \<le> 1 \<and>
    length (filter (\<lambda>e. role e = Model) new) \<le> 1 \<and>
    (\<forall>e \<in> set new. text e \<noteq> [] \<and>
       text e = trim ((if role e = User then user else model) (transcriptionBufferRef s))) \<and>
    user (transcriptionBufferRef (turnCompleteBranch env m s)) = [] \<and>
    model (transcriptionBufferRef (turnCompleteBranch env m s)) = [] \<and>
    user (pendingTextRef (turnCompleteBranch env m s)) = [] \<and>
    model (pendingTextRef (turnCompleteBranch env m s)) = [] \<and>
    (trim (user (transcriptionBufferRef s)) = [] \<and> trim (model (transcriptionBufferRef s)) = []
       \<longrightarrow> transcriptions (turnCompleteBranch env m s) = transcriptions s) \<and>
    (audioData m = None \<and> \<not> interrupted m \<and> inputTranscriptionText m = None \<and>
     outputTranscriptionText m = None
       \<longrightarrow> handleMessage env (Some m) s = (turnCompleteBranch env m s, None))"
proof -
  have h: "handleMessage env (Some m) s = (turnCompleteBranch env m s, None)"
    if "audioData m = None" "\<not> interrupted m" "inputTranscriptionText m = None"
      "outputTranscriptionText m = None"
    using that
    by (simp add: handleMessage_def handleMessageBody_def audioBranch_def interruptBranch_def
          inputBranch_def outputBranch_def)
  show ?thesis
    using assms h turnCompleteBranch_transcriptions [of m env s] turnCompleteBranch_reset [of m env s]
    by (auto simp add: finalized_def empty_pair_def)
qed

lemma trim_hello: "trim '' hello '' = ''hello''"
  by (simp add: trim_def isWhiteSpace_def)

lemma trim_blank: "trim '' '' = []"
  by (simp add: trim_def isWhiteSpace_def)

theorem turn_complete_emits_witness:
  "turnComplete turnCompleteMsg \<and>
   (audioData turnCompleteMsg = None \<and> \<not> interrupted turnCompleteMsg \<and>
    inputTranscriptionText turnCompleteMsg = None \<and> outputTranscriptionText turnCompleteMsg = None) \<and>
   transcriptions (turnCompleteBranch quietEnv turnCompleteMsg helloState) =
     [\<lparr> role = User, text = ''hello'', timestamp = 1000 \<rparr>] \<and>
   user (transcriptionBufferRef (turnCompleteBranch quietEnv turnCompleteMsg helloState)) = [] \<and>
   transcriptions (fst (handleMessage quietEnv (Some turnCompleteMsg) helloState)) =
     [\<lparr> role = User, text = ''hello'', timestamp = 1000 \<rparr>] \<and>
   (trim (user (transcriptionBufferRef initial)) = [] \<and>
    trim (model (transcriptionBufferRef initial)) = []) \<and>
   transcriptions (turnCompleteBranch quietEnv turnCompleteMsg initial) = []"
proof -
  have m: "turnComplete turnCompleteMsg" "audioData turnCompleteMsg = None"
    "\<not> interrupted turnCompleteMsg" "inputTranscriptionText turnCompleteMsg = None"
    "outputTranscriptionText turnCompleteMsg = None"
    by (simp_all add: turnCompleteMsg_def emptyMsg_def)
  have e: "trim (user (transcriptionBufferRef initial)) = []"
    "trim (model (transcriptionBufferRef initial)) = []" "transcriptions initial = []"
    by (simp_all add: initial_def empty_pair_def trim_def)
  have h: "trim (user (transcriptionBufferRef helloState)) = ''hello''"
    "trim (model (transcriptionBufferRef helloState)) = []" "transcriptions helloState = []"
    by (simp_all add: helloState_def initial_def trim_hello trim_blank)
  have q: "dateNow1 quietEnv = 1000"
    by (simp add: quietEnv_def)
  show ?thesis
    using m e h q turn_complete_emits [OF m(1), of quietEnv helloState]
      turn_complete_emits [OF m(1), of quietEnv initial]
    by (simp add: finalized_def)
qed

section \<open>The message handler keeps its errors\<close>

lemma interruptBranch_eq:
  "interruptBranch env m s =
     (if interrupted m
      then (s\<lparr> sourcesRef := [], nextStartTimeRef := 0, isSpeaking := False,
               effects := effects s @ map SourceStop (sourcesRef s) @ [SourcesClear, CursorReset] \<rparr>,
            None)
      else (s, None))"
  by (simp add: interruptBranch_def resetCursor_def clearSources_def emit_def)

lemma handleMessage_None:
  "handleMessage env None s =
     (emit (ConsoleError ''Error handling message:'' (Some (Error ''TypeError''))) s, None)"
  by (simp add: handleMessage_def handleMessageBody_def)

lemma handleMessage_Some:
  "handleMessage env (Some m) s =
     (case audioBranch env m s of
        (s1, None) \<Rightarrow>
          (turnCompleteBranch env m (outputBranch m (inputBranch m (fst (interruptBranch env m s1)))),
           None)
      | (s1, Some e) \<Rightarrow> (emit (ConsoleError ''Error handling message:'' (Some e)) s1, None))"
  by (cases "audioBranch env m s"; cases "snd (audioBranch env m s)")
     (auto simp add: handleMessage_def handleMessageBody_def interruptBranch_eq)

lemma handleMessage_returns: "snd (handleMessage env msg s) = None"
  by (cases msg) (auto simp add: handleMessage_None handleMessage_Some split: prod.splits option.splits)


lemma sessionUntouchedI:
  assumes "isActive s' = isActive s" "isConnecting s' = isConnecting s"
    "isSessionOpenRef s' = isSessionOpenRef s" "sessionRef s' = sessionRef s"
    "streamRef s' = streamRef s" "scriptProcessorRef s' = scriptProcessorRef s"
    "mediaSourceRef s' = mediaSourceRef s" "error s' = error s"
    "statusMessage s' = statusMessage s" "endFeedback s' = endFeedback s"
    "effects s' = effects s @ new" "list_all (\<lambda>e. \<not> teardownCall e) new"
  shows "sessionUntouched s s'"
  using assms by (simp add: sessionUntouched_def added_def)

lemma sessionUntouched_effects:
  "sessionUntouched s s' \<Longrightarrow> effects s' = effects s @ added s s'"
  unfolding sessionUntouched_def added_def
  by (metis append_take_drop_id)

lemma sessionUntouched_refl: "sessionUntouched s s"
  by (simp add: sessionUntouched_def added_def)

lemma sessionUntouched_trans:
  assumes "sessionUntouched s s1" "sessionUntouched s1 s2"
  shows "sessionUntouched s s2"
proof -
  have e1: "effects s1 = effects s @ added s s1" and e2: "effects s2 = effects s1 @ added s1 s2"
    using assms by (simp_all add: sessionUntouched_effects)
  have e: "effects s2 = effects s @ (added s s1 @ added s1 s2)"
    using e1 e2 by simp
  have l: "list_all (\<lambda>e. \<not> teardownCall e) (added s s1 @ added s1 s2)"
    using assms by (simp add: sessionUntouched_def)
  have f: "isActive s2 = isActive s" "isConnecting s2 = isConnecting s"
    "isSessionOpenRef s2 = isSessionOpenRef s" "sessionRef s2 = sessionRef s"
    "streamRef s2 = streamRef s" "scriptProcessorRef s2 = scriptProcessorRef s"
    "mediaSourceRef s2 = mediaSourceRef s" "error s2 = error s"
    "statusMessage s2 = statusMessage s" "endFeedback s2 = endFeedback s"
    using assms by (simp_all add: sessionUntouched_def)
  show ?thesis
    by (rule sessionUntouchedI [OF f e l])
qed

lemma sessionUntouched_emit:
  "\<not> teardownCall e \<Longrightarrow> sessionUntouched s (emit e s)"
  by (rule sessionUntouchedI [where new = "[e]"]) (simp_all add: emit_def)

lemma sessionUntouched_audio: "sessionUntouched s (fst (audioBranch env m s))"
proof (cases "\<exists>d buf. audioData m = Some d \<and> d \<noteq> [] \<and> outputAudioContextRef s \<and> decodeAudioData env d = Inr buf")
  case True
  then obtain d buf where h: "audioData m = Some d" "d \<noteq> []" "outputAudioContextRef s"
      "decodeAudioData env d = Inr buf" by blast
  show ?thesis
    by (rule sessionUntouchedI [where new = "[SourceStart (nextSourceId s)
           (max (nextStartTimeRef s) (currentTime env)) (duration buf)]"])
       (simp_all add: audioBranch_def h Let_def emit_def)
next
  case False
  then show ?thesis
    by (intro sessionUntouchedI [where new = "[]"])
       (auto simp add: audioBranch_def Let_def split: option.splits sum.splits)
qed

lemma list_all_map_SourceStop: "list_all (\<lambda>e. \<not> teardownCall e) (map SourceStop xs)"
  by (induction xs) simp_all

lemma sessionUntouched_interrupt: "sessionUntouched s (fst (interruptBranch env m s))"
proof (cases "interrupted m")
  case True
  show ?thesis
    by (rule sessionUntouchedI [where new = "map SourceStop (sourcesRef s) @ [SourcesClear, CursorReset]"])
       (simp_all add: interruptBranch_eq True list_all_map_SourceStop)
next
  case False
  then show ?thesis by (simp add: interruptBranch_eq sessionUntouched_refl)
qed

lemma sessionUntouched_input: "sessionUntouched s (inputBranch m s)"
  by (rule sessionUntouchedI [where new = "[]"])
     (simp_all add: inputBranch_def requestFrame_def split: option.splits)

lemma sessionUntouched_output: "sessionUntouched s (outputBranch m s)"
  by (rule sessionUntouchedI [where new = "[]"])
     (simp_all add: outputBranch_def requestFrame_def split: option.splits)

lemma sessionUntouched_turnComplete: "sessionUntouched s (turnCompleteBranch env m s)"
  by (rule sessionUntouchedI [where new = "[]"])
     (simp_all add: turnCompleteBranch_def Let_def)


lemma sessionUntouched_tail:
  "sessionUntouched s1
     (turnCompleteBranch env m (outputBranch m (inputBranch m (fst (interruptBranch env m s1)))))"
proof -
  let ?a = "fst (interruptBranch env m s1)"
  let ?b = "inputBranch m ?a"
  let ?c = "outputBranch m ?b"
  have "sessionUntouched s1 ?b"
    by (rule sessionUntouched_trans [OF sessionUntouched_interrupt sessionUntouched_input])
  then have "sessionUntouched s1 ?c"
    by (rule sessionUntouched_trans [OF _ sessionUntouched_output])
  then show ?thesis
    by (rule sessionUntouched_trans [OF _ sessionUntouched_turnComplete])
qed

lemma sessionUntouched_handleMessage: "sessionUntouched s (fst (handleMessage env msg s))"
proof (cases msg)
  case None
  then show ?thesis by (simp add: handleMessage_None sessionUntouched_emit)
next
  case (Some m)
  obtain s1 r where a: "audioBranch env m s = (s1, r)" by (cases "audioBranch env m s")
  have u1: "sessionUntouched s s1" using sessionUntouched_audio [of s env m] a by simp
  show ?thesis
  proof (cases r)
    case None
    have "fst (handleMessage env msg s) =
        turnCompleteBranch env m (outputBranch m (inputBranch m (fst (interruptBranch env m s1))))"
      using Some a None by (simp add: handleMessage_Some)
    then show ?thesis
      using sessionUntouched_trans [OF u1 sessionUntouched_tail] by simp
  next
    case (Some e)
    have "fst (handleMessage env msg s) = emit (ConsoleError ''Error handling message:'' (Some e)) s1"
      using \<open>msg = Some m\<close> a Some by (simp add: handleMessage_Some)
    then show ?thesis
      using sessionUntouched_trans [OF u1 sessionUntouched_emit] by simp
  qed
qed

lemma audioBranch_effects_prefix:
  "\<exists>new. effects (fst (audioBranch env m s)) = effects s @ new"
  using sessionUntouched_effects [OF sessionUntouched_audio] by blast

lemma handleMessage_logs:
  assumes "snd (handleMessageBody env msg s) = Some e"
  shows "ConsoleError ''Error handling message:'' (Some e) \<in> set (added s (fst (handleMessage env msg s)))"
proof (cases msg)
  case None
  then show ?thesis
    using assms by (simp add: handleMessage_None handleMessageBody_def added_def emit_def)
next
  case (Some m)
  obtain s1 r where a: "audioBranch env m s = (s1, r)" by (cases "audioBranch env m s")
  have r: "r = Some e"
    using assms Some a by (cases r) (simp_all add: handleMessageBody_def interruptBranch_eq split: if_splits)
  obtain new where n: "effects s1 = effects s @ new"
    using audioBranch_effects_prefix [of env m s] a by auto
  show ?thesis
    using Some a r n by (simp add: handleMessage_Some added_def emit_def)
qed

text \<open>
  C10. For every message, also a null one and one whose audio does not decode, and for
  every state, \<^verbatim>\<open>handleMessage\<close> returns without an exception; the session state machine,
  the resources and the error surface are as before and no teardown call was made; and
  when the body threw, the exception was logged with \<^verbatim>\<open>console.error\<close>.
\<close>

theorem handleMessage_contains_errors:
  "snd (handleMessage env msg s) = None \<and>
   sessionUntouched s (fst (handleMessage env msg s)) \<and>
   (\<forall>e. snd (handleMessageBody env msg s) = Some e \<longrightarrow>
      ConsoleError ''Error handling message:'' (Some e)
        \<in> set (added s (fst (handleMessage env msg s))))"
  using handleMessage_returns sessionUntouched_handleMessage handleMessage_logs by blast

theorem handleMessage_contains_errors_witness:
  "snd (handleMessageBody badAudioEnv (Some badAudioMsg) openState) = Some (Error ''InvalidCharacterError'') \<and>
   snd (handleMessage badAudioEnv (Some badAudioMsg) openState) = None \<and>
   isActive (fst (handleMessage badAudioEnv (Some badAudioMsg) openState)) \<and>
   isSessionOpenRef (fst (handleMessage badAudioEnv (Some badAudioMsg) openState)) \<and>
   error (fst (handleMessage badAudioEnv (Some badAudioMsg) openState)) = None \<and>
   ConsoleError ''Error handling message:'' (Some (Error ''InvalidCharacterError''))
     \<in> set (added openState (fst (handleMessage badAudioEnv (Some badAudioMsg) openState)))"
proof -
  have b: "snd (handleMessageBody badAudioEnv (Some badAudioMsg) openState) = Some (Error ''InvalidCharacterError'')"
    by (simp add: handleMessageBody_def audioBranch_def badAudioEnv_def badAudioMsg_def emptyMsg_def
          openState_def initial_def quietEnv_def Let_def)
  have o: "isActive openState" "isSessionOpenRef openState" "error openState = None"
    by (simp_all add: openState_def initial_def)
  show ?thesis
    using b o handleMessage_contains_errors [of badAudioEnv "Some badAudioMsg" openState]
    by (simp add: sessionUntouched_def)
qed

section \<open>Playback scheduler: interrupt\<close>

lemma tail_playback:
  "sourcesRef (turnCompleteBranch env m (outputBranch m (inputBranch m x))) = sourcesRef x \<and>
   nextStartTimeRef (turnCompleteBranch env m (outputBranch m (inputBranch m x))) = nextStartTimeRef x \<and>
   isSpeaking (turnCompleteBranch env m (outputBranch m (inputBranch m x))) = isSpeaking x \<and>
   effects (turnCompleteBranch env m (outputBranch m (inputBranch m x))) = effects x"
  by (simp add: turnCompleteBranch_def outputBranch_def inputBranch_def requestFrame_def Let_def
        split: option.splits)

lemma audioBranch_keeps_sources:
  "set (sourcesRef s) \<subseteq> set (sourcesRef (fst (audioBranch env m s)))"
  by (auto simp add: audioBranch_def Let_def set_add_def emit_def split: option.splits sum.splits)

lemma handleMessage_no_throw_in_audio:
  assumes "snd (audioBranch env m s) = None"
  shows "fst (handleMessage env (Some m) s) =
     turnCompleteBranch env m (outputBranch m (inputBranch m
       (fst (interruptBranch env m (fst (audioBranch env m s))))))"
  using assms by (cases "audioBranch env m s") (simp add: handleMessage_Some)

text \<open>
  C3. Whatever the state, the interrupt block calls \<^verbatim>\<open>stop\<close> on every source of the set,
  empties the set, puts the cursor at zero and the speaking signal at false; and a message
  with the interrupted signal whose audio part did not throw leaves the handler in such a
  state, every source that was in the set before the message having been stopped.
\<close>

theorem interrupt_silences:
  assumes "interrupted m"
  shows "snd (interruptBranch env m s) = None \<and>
    added s (fst (interruptBranch env m s)) = map SourceStop (sourcesRef s) @ [SourcesClear, CursorReset] \<and>
    sourcesRef (fst (interruptBranch env m s)) = [] \<and>
    nextStartTimeRef (fst (interruptBranch env m s)) = 0 \<and>
    \<not> isSpeaking (fst (interruptBranch env m s)) \<and>
    (snd (audioBranch env m s) = None \<longrightarrow>
       sourcesRef (fst (handleMessage env (Some m) s)) = [] \<and>
       nextStartTimeRef (fst (handleMessage env (Some m) s)) = 0 \<and>
       \<not> isSpeaking (fst (handleMessage env (Some m) s)) \<and>
       (\<forall>src \<in> set (sourcesRef s).
          SourceStop src \<in> set (added s (fst (handleMessage env (Some m) s)))))"
proof -
  let ?a = "fst (audioBranch env m s)"
  have i: "snd (interruptBranch env m s) = None"
    "added s (fst (interruptBranch env m s)) = map SourceStop (sourcesRef s) @ [SourcesClear, CursorReset]"
    "sourcesRef (fst (interruptBranch env m s)) = []"
    "nextStartTimeRef (fst (interruptBranch env m s)) = 0"
    "\<not> isSpeaking (fst (interruptBranch env m s))"
    using assms by (simp_all add: interruptBranch_eq added_def)
  have h: "sourcesRef (fst (handleMessage env (Some m) s)) = [] \<and>
       nextStartTimeRef (fst (handleMessage env (Some m) s)) = 0 \<and>
       \<not> isSpeaking (fst (handleMessage env (Some m) s)) \<and>
       (\<forall>src \<in> set (sourcesRef s).
          SourceStop src \<in> set (added s (fst (handleMessage env (Some m) s))))"
    if n: "snd (audioBranch env m s) = None"
  proof -
    obtain new where e: "effects ?a = effects s @ new"
      using audioBranch_effects_prefix by blast
    have f: "effects (fst (handleMessage env (Some m) s)) =
        effects s @ new @ map SourceStop (sourcesRef ?a) @ [SourcesClear, CursorReset]"
      using assms e by (simp add: handleMessage_no_throw_in_audio [OF n] tail_playback interruptBranch_eq)
    have "\<forall>src \<in> set (sourcesRef s). SourceStop src \<in> set (added s (fst (handleMessage env (Some m) s)))"
      using audioBranch_keeps_sources [of s env m] by (auto simp add: f added_def)
    then show ?thesis
      using assms by (simp add: handleMessage_no_throw_in_audio [OF n] tail_playback interruptBranch_eq)
  qed
  show ?thesis using i h by blast
qed


lemma audioBranch_enqueue:
  assumes "audioData m = Some d" "d \<noteq> []" "outputAudioContextRef s" "decodeAudioData env d = Inr buf"
  shows "audioBranch env m s =
    (s\<lparr> isSpeaking := True,
        nextStartTimeRef := max (nextStartTimeRef s) (currentTime env) + duration buf,
        nextSourceId := Suc (nextSourceId s),
        effects := effects s @ [SourceStart (nextSourceId s)
                     (max (nextStartTimeRef s) (currentTime env)) (duration buf)],
        sourcesRef := set_add (nextSourceId s) (sourcesRef s) \<rparr>, None)"
  using assms by (simp add: audioBranch_def Let_def emit_def)

lemma two_chunks_played:
  "sourcesRef (handleMessages [chunkA, chunkB] openState) = [0, 1] \<and>
   nextStartTimeRef (handleMessages [chunkA, chunkB] openState) = 4 \<and>
   isSpeaking (handleMessages [chunkA, chunkB] openState) \<and>
   effects (handleMessages [chunkA, chunkB] openState) =
     [SourceStart 0 (1 / 2) 2, SourceStart 1 (5 / 2) (3 / 2)]"
  by (simp add: chunkA_def envA_def msgA_def bufferA_def chunkB_def handleMessage_Some
        audioBranch_def Let_def emit_def emptyMsg_def quietEnv_def openState_def initial_def interruptBranch_eq
        turnCompleteBranch_def outputBranch_def inputBranch_def duration_def set_add_def)

theorem interrupt_silences_witness:
  "interrupted interruptMsg \<and>
   snd (audioBranch quietEnv interruptMsg (handleMessages [chunkA, chunkB] openState)) = None \<and>
   sourcesRef (handleMessages [chunkA, chunkB] openState) = [0, 1] \<and>
   sourcesRef (fst (handleMessage quietEnv (Some interruptMsg)
                      (handleMessages [chunkA, chunkB] openState))) = [] \<and>
   nextStartTimeRef (fst (handleMessage quietEnv (Some interruptMsg)
                      (handleMessages [chunkA, chunkB] openState))) = 0 \<and>
   \<not> isSpeaking (fst (handleMessage quietEnv (Some interruptMsg)
                      (handleMessages [chunkA, chunkB] openState))) \<and>
   SourceStop 0 \<in> set (added (handleMessages [chunkA, chunkB] openState)
       (fst (handleMessage quietEnv (Some interruptMsg) (handleMessages [chunkA, chunkB] openState)))) \<and>
   SourceStop 1 \<in> set (added (handleMessages [chunkA, chunkB] openState)
       (fst (handleMessage quietEnv (Some interruptMsg) (handleMessages [chunkA, chunkB] openState))))"
proof -
  have i: "interrupted interruptMsg"
    by (simp add: interruptMsg_def emptyMsg_def)
  have a: "snd (audioBranch quietEnv interruptMsg (handleMessages [chunkA, chunkB] openState)) = None"
    by (simp add: audioBranch_def interruptMsg_def emptyMsg_def)
  show ?thesis
    using i a two_chunks_played
      interrupt_silences [OF i, of quietEnv "handleMessages [chunkA, chunkB] openState"]
    by simp
qed

section \<open>Playback scheduler: enqueue\<close>

lemma schedule_append: "schedule (xs @ ys) = schedule xs @ schedule ys"
  by (induction xs rule: schedule.induct) simp_all

lemma schedule_SourceStop: "schedule (map SourceStop xs) = []"
  by (induction xs) simp_all

lemma chain_snoc:
  assumes "list_all (\<lambda>(w, d). 0 \<le> d \<and> w + d \<le> c) xs"
    and "successively (\<lambda>(w1, d1) (w2, d2). w1 + d1 \<le> w2) xs"
    and "c \<le> w" and "(0::real) \<le> d"
  shows "list_all (\<lambda>(w', d'). 0 \<le> d' \<and> w' + d' \<le> w + d) (xs @ [(w, d)]) \<and>
         successively (\<lambda>(w1, d1) (w2, d2). w1 + d1 \<le> w2) (xs @ [(w, d)])"
proof -
  have a: "list_all (\<lambda>(w', d'). 0 \<le> d' \<and> w' + d' \<le> w + d) xs"
    using assms(1,3,4) by (auto simp add: list_all_iff)
  have "xs = [] \<or> (case last xs of (w1, d1) \<Rightarrow> w1 + d1 \<le> w)"
    using assms(1,3) last_in_set [of xs] by (fastforce simp add: list_all_iff)
  then have b: "successively (\<lambda>(w1, d1) (w2, d2). w1 + d1 \<le> w2) (xs @ [(w, d)])"
    using assms(2) by (auto simp add: successively_append_iff split: prod.splits)
  show ?thesis using a b assms(4) by simp
qed

lemma chain_sorted:
  "list_all (\<lambda>(w, d). (0::real) \<le> d) xs \<Longrightarrow>
   successively (\<lambda>(w1, d1) (w2, d2). w1 + d1 \<le> w2) xs \<Longrightarrow> sorted (map fst xs)"
proof (induction xs rule: induct_list012)
  case 1
  then show ?case by simp
next
  case (2 x)
  then show ?case by simp
next
  case (3 x y zs)
  then have s: "sorted (map fst (y # zs))" and xy: "fst x \<le> fst y"
    by (auto split: prod.splits)
  have "sorted (fst x # fst y # map fst zs)"
    using s xy by (simp only: sorted2 list.map)
  then show ?case by simp
qed

lemma chunksChainedFrom_start: "chunksChainedFrom (length (effects s)) s"
  by (simp add: chunksChainedFrom_def)

lemma chunksChainedFrom_cursor_up:
  assumes "chunksChainedFrom n s" "nextStartTimeRef s \<le> c" "effects s' = effects s"
    "nextStartTimeRef s' = c"
  shows "chunksChainedFrom n s'"
  using assms unfolding chunksChainedFrom_def by (auto simp add: list_all_iff)

lemma chunksChainedFrom_same:
  assumes "chunksChainedFrom n s" "schedule (drop n (effects s')) = schedule (drop n (effects s))"
    "nextStartTimeRef s' = nextStartTimeRef s"
  shows "chunksChainedFrom n s'"
  using assms by (simp add: chunksChainedFrom_def)

lemma duration_nonneg: "0 \<le> duration buf"
  by (simp add: duration_def)

lemma chunksChainedFrom_audio:
  assumes "chunksChainedFrom n s" "n \<le> length (effects s)"
  shows "chunksChainedFrom n (fst (audioBranch env m s))"
proof (cases "\<exists>d. audioData m = Some d \<and> d \<noteq> [] \<and> outputAudioContextRef s")
  case False
  then have "effects (fst (audioBranch env m s)) = effects s \<and>
      nextStartTimeRef (fst (audioBranch env m s)) = nextStartTimeRef s"
    by (auto simp add: audioBranch_def Let_def split: option.splits)
  then show ?thesis using assms(1) chunksChainedFrom_same by simp
next
  case True
  then obtain d where h: "audioData m = Some d" "d \<noteq> []" "outputAudioContextRef s" by blast
  let ?w = "max (nextStartTimeRef s) (currentTime env)"
  show ?thesis
  proof (cases "decodeAudioData env d")
    case (Inl e)
    have "effects (fst (audioBranch env m s)) = effects s" "nextStartTimeRef (fst (audioBranch env m s)) = ?w"
      using h Inl by (simp_all add: audioBranch_def Let_def)
    then show ?thesis
      using chunksChainedFrom_cursor_up [OF assms(1), of ?w] by simp
  next
    case (Inr buf)
    have c: "list_all (\<lambda>(w', d'). 0 \<le> d' \<and> w' + d' \<le> ?w + duration buf)
               (schedule (drop n (effects s)) @ [(?w, duration buf)]) \<and>
          successively (\<lambda>(w1, d1) (w2, d2). w1 + d1 \<le> w2)
               (schedule (drop n (effects s)) @ [(?w, duration buf)])"
      using assms(1) by (intro chain_snoc [where c = "nextStartTimeRef s"])
        (simp_all add: chunksChainedFrom_def duration_nonneg)
    then show ?thesis
      using assms(2)
      by (simp add: audioBranch_enqueue [OF h Inr] chunksChainedFrom_def schedule_append)
  qed
qed

lemma chunksChainedFrom_handleMessage:
  assumes "chunksChainedFrom n s" "n \<le> length (effects s)" "\<not> isInterrupt msg"
  shows "chunksChainedFrom n (fst (handleMessage env msg s))"
proof (cases msg)
  case None
  then show ?thesis
    using assms by (simp add: handleMessage_None chunksChainedFrom_def emit_def schedule_append)
next
  case (Some m)
  then have ni: "\<not> interrupted m" using assms(3) by (simp add: isInterrupt_def)
  obtain s1 r where a: "audioBranch env m s = (s1, r)" by (cases "audioBranch env m s")
  have c1: "chunksChainedFrom n s1"
    using chunksChainedFrom_audio [OF assms(1,2), of env m] a by simp
  obtain new where n1: "effects s1 = effects s @ new"
    using audioBranch_effects_prefix [of env m s] a by auto
  show ?thesis
  proof (cases r)
    case None
    have "chunksChainedFrom n (turnCompleteBranch env m (outputBranch m (inputBranch m s1)))"
      by (rule chunksChainedFrom_same [OF c1]) (simp_all add: tail_playback)
    then show ?thesis
      using Some a None ni by (simp add: handleMessage_Some interruptBranch_eq)
  next
    case (Some e)
    have "chunksChainedFrom n (emit (ConsoleError ''Error handling message:'' (Some e)) s1)"
      using assms(2) n1
      by (intro chunksChainedFrom_same [OF c1]) (simp_all add: emit_def schedule_append)
    then show ?thesis
      using \<open>msg = Some m\<close> a Some by (simp add: handleMessage_Some)
  qed
qed

lemma handleMessage_history_grows:
  "length (effects s) \<le> length (effects (fst (handleMessage env msg s)))"
  using sessionUntouched_effects [OF sessionUntouched_handleMessage [of s env msg]] by simp

lemma chunksChainedFrom_handleMessages:
  "chunksChainedFrom n s \<Longrightarrow> n \<le> length (effects s) \<Longrightarrow>
   list_all (\<lambda>(env, msg). \<not> isInterrupt msg) ms \<Longrightarrow>
   chunksChainedFrom n (handleMessages ms s)"
proof (induction ms arbitrary: s)
  case Nil
  then show ?case by simp
next
  case (Cons a ms)
  obtain env msg where a: "a = (env, msg)" by (cases a)
  have 1: "chunksChainedFrom n (fst (handleMessage env msg s))"
    using Cons.prems a by (intro chunksChainedFrom_handleMessage) simp_all
  have 2: "n \<le> length (effects (fst (handleMessage env msg s)))"
    using Cons.prems(2) handleMessage_history_grows [of s env msg] by simp
  show ?case
    using Cons.IH [OF 1 2] Cons.prems(3) a by simp
qed

lemma chunksChainedFrom_sorted:
  "chunksChainedFrom n s \<Longrightarrow> sorted (map fst (schedule (drop n (effects s))))"
  unfolding chunksChainedFrom_def
  by (rule chain_sorted) (auto simp add: list_all_iff)

text \<open>
  C2. An enqueue (an audio message with the output context present, whose payload decodes
  to a buffer) starts the chunk at the maximum of the cursor and the clock, so not before
  the clock and not before the cursor, leaves the cursor at that start plus the duration
  of the buffer, and leaves the new source in the set. Over any list of messages without
  an interrupt, from any state, the chunks scheduled by these messages are chained: each
  start is at least the start before it plus the duration before it, all of them end by
  the cursor, and the start times are non-decreasing.
\<close>

theorem enqueue_keeps_order:
  "(audioData m = Some d \<and> d \<noteq> [] \<and> outputAudioContextRef s \<and> decodeAudioData env d = Inr buf \<longrightarrow>
      snd (audioBranch env m s) = None \<and>
      added s (fst (audioBranch env m s)) =
        [SourceStart (nextSourceId s) (max (nextStartTimeRef s) (currentTime env)) (duration buf)] \<and>
      currentTime env \<le> max (nextStartTimeRef s) (currentTime env) \<and>
      nextStartTimeRef (fst (audioBranch env m s)) =
        max (nextStartTimeRef s) (currentTime env) + duration buf \<and>
      nextSourceId s \<in> set (sourcesRef (fst (audioBranch env m s)))) \<and>
   (list_all (\<lambda>(env, msg). \<not> isInterrupt msg) ms \<longrightarrow>
      chunksChainedFrom (length (effects s)) (handleMessages ms s) \<and>
      successively (\<lambda>(w1, d1) (w2, d2). w1 + d1 \<le> w2)
        (schedule (added s (handleMessages ms s))) \<and>
      sorted (map fst (schedule (added s (handleMessages ms s)))))"
proof -
  have 1: "snd (audioBranch env m s) = None \<and>
      added s (fst (audioBranch env m s)) =
        [SourceStart (nextSourceId s) (max (nextStartTimeRef s) (currentTime env)) (duration buf)] \<and>
      currentTime env \<le> max (nextStartTimeRef s) (currentTime env) \<and>
      nextStartTimeRef (fst (audioBranch env m s)) =
        max (nextStartTimeRef s) (currentTime env) + duration buf \<and>
      nextSourceId s \<in> set (sourcesRef (fst (audioBranch env m s)))"
    if "audioData m = Some d" "d \<noteq> []" "outputAudioContextRef s" "decodeAudioData env d = Inr buf"
    by (simp add: audioBranch_enqueue [OF that] added_def set_add_def)
  have 2: "chunksChainedFrom (length (effects s)) (handleMessages ms s) \<and>
      successively (\<lambda>(w1, d1) (w2, d2). w1 + d1 \<le> w2)
        (schedule (added s (handleMessages ms s))) \<and>
      sorted (map fst (schedule (added s (handleMessages ms s))))"
    if "list_all (\<lambda>(env, msg). \<not> isInterrupt msg) ms"
  proof -
    have c: "chunksChainedFrom (length (effects s)) (handleMessages ms s)"
      by (rule chunksChainedFrom_handleMessages [OF chunksChainedFrom_start _ that]) simp
    then show ?thesis
      using chunksChainedFrom_sorted [OF c] by (simp add: chunksChainedFrom_def added_def)
  qed
  show ?thesis using 1 2 by blast
qed

theorem enqueue_keeps_order_witness:
  "(audioData msgA = Some ''AAAA'' \<and> ''AAAA'' \<noteq> [] \<and> outputAudioContextRef openState \<and>
      decodeAudioData envA ''AAAA'' = Inr bufferA) \<and>
   added openState (fst (audioBranch envA msgA openState)) = [SourceStart 0 (1 / 2) 2] \<and>
   nextStartTimeRef (fst (audioBranch envA msgA openState)) = 5 / 2 \<and>
   0 \<in> set (sourcesRef (fst (audioBranch envA msgA openState))) \<and>
   list_all (\<lambda>(env, msg). \<not> isInterrupt msg) [chunkA, chunkB] \<and>
   schedule (added openState (handleMessages [chunkA, chunkB] openState)) =
     [(1 / 2, 2), (5 / 2, 3 / 2)] \<and>
   nextStartTimeRef (handleMessages [chunkA, chunkB] openState) = 4 \<and>
   chunksChainedFrom (length (effects openState)) (handleMessages [chunkA, chunkB] openState) \<and>
   sorted (map fst (schedule (added openState (handleMessages [chunkA, chunkB] openState))))"
proof -
  have a: "audioData msgA = Some ''AAAA''" "''AAAA'' \<noteq> []" "outputAudioContextRef openState"
    "decodeAudioData envA ''AAAA'' = Inr bufferA"
    by (simp_all add: msgA_def envA_def emptyMsg_def quietEnv_def openState_def initial_def)
  have v: "nextSourceId openState = 0" "nextStartTimeRef openState = 0" "currentTime envA = 1 / 2"
    "duration bufferA = 2" "effects openState = []"
    by (simp_all add: envA_def quietEnv_def openState_def initial_def bufferA_def duration_def)
  have l: "list_all (\<lambda>(env, msg). \<not> isInterrupt msg) [chunkA, chunkB]"
    by (simp add: chunkA_def chunkB_def isInterrupt_def emptyMsg_def msgA_def)
  have p: "schedule (added openState (handleMessages [chunkA, chunkB] openState)) =
     [(1 / 2, 2), (5 / 2, 3 / 2)]"
    using two_chunks_played v(5) by (simp add: added_def)
  note t = enqueue_keeps_order [of msgA "''AAAA''" openState envA bufferA "[chunkA, chunkB]"]
  have 1: "added openState (fst (audioBranch envA msgA openState)) =
        [SourceStart (nextSourceId openState)
           (max (nextStartTimeRef openState) (currentTime envA)) (duration bufferA)]"
    "nextStartTimeRef (fst (audioBranch envA msgA openState)) =
        max (nextStartTimeRef openState) (currentTime envA) + duration bufferA"
    "nextSourceId openState \<in> set (sourcesRef (fst (audioBranch envA msgA openState)))"
    using t a by blast+
  have 2: "chunksChainedFrom (length (effects openState)) (handleMessages [chunkA, chunkB] openState)"
    "sorted (map fst (schedule (added openState (handleMessages [chunkA, chunkB] openState))))"
    using t l by blast+
  show ?thesis
    using a l p 1 2 two_chunks_played by (simp add: v)
qed

section \<open>Playback scheduler: the speaking signal\<close>

lemma speakingAgrees_enqueue:
  assumes "audioData m = Some d" "d \<noteq> []" "outputAudioContextRef s" "decodeAudioData env d = Inr buf"
  shows "speakingAgrees (fst (audioBranch env m s))"
  by (auto simp add: audioBranch_enqueue [OF assms] speakingAgrees_def set_add_def)

lemma speakingAgrees_interrupt:
  "interrupted m \<Longrightarrow> speakingAgrees (fst (interruptBranch env m s))"
  by (simp add: interruptBranch_eq speakingAgrees_def)

lemma speakingAgrees_sourceEnded:
  "speakingAgrees s \<Longrightarrow> speakingAgrees (sourceEnded src s)"
  by (auto simp add: sourceEnded_def speakingAgrees_def set_delete_def Let_def)

lemma sourceEnded_last:
  "set (sourcesRef s) \<subseteq> {src} \<Longrightarrow> \<not> isSpeaking (sourceEnded src s)"
  by (auto simp add: sourceEnded_def set_delete_def Let_def filter_empty_conv removeAll_filter_not_eq)

lemma speaking_without_source:
  assumes "audioData m = Some d" "d \<noteq> []" "outputAudioContextRef s" "decodeAudioData env d = Inl e"
    and "sourcesRef s = []"
  shows "isSpeaking (fst (handleMessage env (Some m) s)) \<and>
         sourcesRef (fst (handleMessage env (Some m) s)) = []"
  using assms by (simp add: handleMessage_Some audioBranch_def Let_def emit_def)

text \<open>
  C4 (the code departs from the claim). In an open session where nothing plays and the
  speaking signal is false, a message whose audio payload does not decode leaves the
  signal true with the set of sources empty: \<^verbatim>\<open>setIsSpeaking(true)\<close> runs before the
  decoding, and the \<^verbatim>\<open>catch\<close> block does not take it back.
\<close>

theorem speaking_stuck_on_decode_failure:
  "speakingAgrees openState \<and> \<not> isSpeaking openState \<and>
   isSpeaking (fst (handleMessage badAudioEnv (Some badAudioMsg) openState)) \<and>
   sourcesRef (fst (handleMessage badAudioEnv (Some badAudioMsg) openState)) = [] \<and>
   \<not> speakingAgrees (fst (handleMessage badAudioEnv (Some badAudioMsg) openState))"
  by (simp add: handleMessage_Some audioBranch_def badAudioEnv_def badAudioMsg_def emptyMsg_def
        openState_def initial_def quietEnv_def Let_def emit_def speakingAgrees_def)

section \<open>Frame sampler: the bounded buffer\<close>

lemma lastN_rev: "lastN n xs = rev (take n (rev xs))"
  by (simp add: lastN_def rev_take)

lemma lastN_lastN_append: "lastN n (lastN n xs @ ys) = lastN n (xs @ ys)"
  by (simp add: lastN_rev min_def)

lemma length_lastN: "length (lastN n xs) \<le> n"
  by (simp add: lastN_def)

lemma lastN_short: "length xs \<le> n \<Longrightarrow> lastN n xs = xs"
  by (simp add: lastN_def)

lemma retainFrame_buffer:
  assumes "length (capturedFramesRef s) \<le> MAX_FRAMES_FOR_FEEDBACK"
  shows "capturedFramesRef (retainFrame now base64 s) =
     (if now - lastFrameCaptureTimeRef s \<ge> FRAME_CAPTURE_INTERVAL
      then lastN MAX_FRAMES_FOR_FEEDBACK (capturedFramesRef s @ [base64])
      else capturedFramesRef s)"
proof (cases "length (capturedFramesRef s) = MAX_FRAMES_FOR_FEEDBACK")
  case True
  then obtain a rest where "capturedFramesRef s = a # rest"
    by (cases "capturedFramesRef s") (simp_all add: MAX_FRAMES_FOR_FEEDBACK_def)
  then have "lastN MAX_FRAMES_FOR_FEEDBACK (capturedFramesRef s @ [base64]) =
      tl (capturedFramesRef s @ [base64])"
    using True by (simp add: lastN_def)
  then show ?thesis
    using True by (simp add: retainFrame_def Let_def)
next
  case False
  then have "length (capturedFramesRef s) < MAX_FRAMES_FOR_FEEDBACK"
    using assms by simp
  then show ?thesis
    by (simp add: retainFrame_def Let_def lastN_def)
qed

lemma retainFrame_time:
  "lastFrameCaptureTimeRef (retainFrame now base64 s) =
     (if now - lastFrameCaptureTimeRef s \<ge> FRAME_CAPTURE_INTERVAL then now
      else lastFrameCaptureTimeRef s)"
  by (simp add: retainFrame_def Let_def)

lemma handleFrame_sent:
  assumes "isSessionOpenRef s" "sessionRef s" "isActive s" "platform (SendFrame base64) = None"
  shows "handleFrame platform now base64 s = (retainFrame now base64 (emit (SendFrame base64) s), None)"
  using assms by (simp add: handleFrame_def invoke_def)

lemma handleFrame_not_sent:
  assumes "\<not> (isSessionOpenRef s \<and> sessionRef s \<and> isActive s \<and> platform (SendFrame base64) = None)"
  shows "capturedFramesRef (fst (handleFrame platform now base64 s)) = capturedFramesRef s \<and>
         lastFrameCaptureTimeRef (fst (handleFrame platform now base64 s)) = lastFrameCaptureTimeRef s"
  using assms
  by (cases "platform (SendFrame base64)")
     (auto simp add: handleFrame_def invoke_def emit_def Let_def split: exn.splits)

lemma handleFrame_returns: "snd (handleFrame platform now base64 s) = None"
  by (cases "platform (SendFrame base64)")
     (auto simp add: handleFrame_def invoke_def Let_def)

lemma handleFrame_buffer:
  assumes "length (capturedFramesRef s) \<le> MAX_FRAMES_FOR_FEEDBACK"
  shows "capturedFramesRef (fst (handleFrame platform now base64 s)) =
     (if retains platform now base64 s
      then lastN MAX_FRAMES_FOR_FEEDBACK (capturedFramesRef s @ [base64])
      else capturedFramesRef s)"
proof (cases "isSessionOpenRef s \<and> sessionRef s \<and> isActive s \<and> platform (SendFrame base64) = None")
  case True
  then show ?thesis
    using assms retainFrame_buffer [of "emit (SendFrame base64) s" now base64]
    by (simp add: handleFrame_sent retains_def emit_def)
next
  case False
  then show ?thesis
    using False handleFrame_not_sent [of s platform base64 now] by (auto simp add: retains_def)
qed

lemma handleFrame_time:
  "lastFrameCaptureTimeRef (fst (handleFrame platform now base64 s)) =
     (if retains platform now base64 s then now else lastFrameCaptureTimeRef s)"
proof (cases "isSessionOpenRef s \<and> sessionRef s \<and> isActive s \<and> platform (SendFrame base64) = None")
  case True
  then show ?thesis
    by (simp add: handleFrame_sent retains_def retainFrame_time emit_def)
next
  case False
  then show ?thesis
    using False handleFrame_not_sent [of s platform base64 now] by (auto simp add: retains_def)
qed

lemma handleFrame_bounded:
  assumes "length (capturedFramesRef s) \<le> MAX_FRAMES_FOR_FEEDBACK"
  shows "length (capturedFramesRef (fst (handleFrame platform now base64 s))) \<le> MAX_FRAMES_FOR_FEEDBACK"
  using assms by (simp add: handleFrame_buffer length_lastN)

lemma handleFrames_buffer:
  "length (capturedFramesRef s) \<le> MAX_FRAMES_FOR_FEEDBACK \<Longrightarrow>
   capturedFramesRef (handleFrames ticks s) =
     lastN MAX_FRAMES_FOR_FEEDBACK (capturedFramesRef s @ map snd (retained ticks s))"
proof (induction ticks arbitrary: s)
  case Nil
  then show ?case by (simp add: lastN_short)
next
  case (Cons tick ticks)
  obtain platform now base64 where t: "tick = (platform, now, base64)" by (cases tick)
  let ?s' = "fst (handleFrame platform now base64 s)"
  have b: "length (capturedFramesRef ?s') \<le> MAX_FRAMES_FOR_FEEDBACK"
    by (rule handleFrame_bounded [OF Cons.prems])
  have "capturedFramesRef (handleFrames ticks ?s') =
      lastN MAX_FRAMES_FOR_FEEDBACK (capturedFramesRef ?s' @ map snd (retained ticks ?s'))"
    by (rule Cons.IH [OF b])
  then show ?case
    using Cons.prems by (simp add: t handleFrame_buffer lastN_lastN_append)
qed

lemma retained_gaps:
  "successively (\<lambda>t1 t2. t2 - t1 \<ge> FRAME_CAPTURE_INTERVAL)
     (lastFrameCaptureTimeRef s # map fst (retained ticks s))"
proof (induction ticks arbitrary: s)
  case Nil
  then show ?case by simp
next
  case (Cons tick ticks)
  obtain platform now base64 where t: "tick = (platform, now, base64)" by (cases tick)
  show ?case
    using Cons.IH [of "fst (handleFrame platform now base64 s)"]
    by (auto simp add: t handleFrame_time retains_def)
qed

text \<open>
  C5. From a state whose buffer holds at most N = 12 frames, after any list of capture
  ticks the buffer holds at most 12 frames and is the last 12 of the old buffer followed
  by the frames retained since, in retention order (all of them while they are fewer);
  the times of retention, from the stored time of the last one on, are at least
  K = 5000 ms apart; and a tick that changes the buffer comes at least 5000 ms after the
  stored time of the last retention.
\<close>

theorem frame_buffer_last_retained:
  assumes "length (capturedFramesRef s) \<le> MAX_FRAMES_FOR_FEEDBACK"
  shows "MAX_FRAMES_FOR_FEEDBACK = 12 \<and> FRAME_CAPTURE_INTERVAL = 5000 \<and>
    length (capturedFramesRef (handleFrames ticks s)) \<le> MAX_FRAMES_FOR_FEEDBACK \<and>
    capturedFramesRef (handleFrames ticks s) =
      lastN MAX_FRAMES_FOR_FEEDBACK (capturedFramesRef s @ map snd (retained ticks s)) \<and>
    successively (\<lambda>t1 t2. t2 - t1 \<ge> FRAME_CAPTURE_INTERVAL)
      (lastFrameCaptureTimeRef s # map fst (retained ticks s)) \<and>
    (capturedFramesRef (fst (handleFrame platform now base64 s)) \<noteq> capturedFramesRef s \<longrightarrow>
       now - lastFrameCaptureTimeRef s \<ge> FRAME_CAPTURE_INTERVAL \<and>
       lastFrameCaptureTimeRef (fst (handleFrame platform now base64 s)) = now)"
proof -
  have b: "capturedFramesRef (handleFrames ticks s) =
      lastN MAX_FRAMES_FOR_FEEDBACK (capturedFramesRef s @ map snd (retained ticks s))"
    by (rule handleFrames_buffer [OF assms])
  then have l: "length (capturedFramesRef (handleFrames ticks s)) \<le> MAX_FRAMES_FOR_FEEDBACK"
    by (simp add: length_lastN)
  have o: "capturedFramesRef (fst (handleFrame platform now base64 s)) \<noteq> capturedFramesRef s \<longrightarrow>
       now - lastFrameCaptureTimeRef s \<ge> FRAME_CAPTURE_INTERVAL \<and>
       lastFrameCaptureTimeRef (fst (handleFrame platform now base64 s)) = now"
    using assms by (auto simp add: handleFrame_buffer handleFrame_time retains_def split: if_splits)
  show ?thesis
    using b l o retained_gaps [of s ticks]
    by (simp add: MAX_FRAMES_FOR_FEEDBACK_def FRAME_CAPTURE_INTERVAL_def)
qed


lemma example_run:
  "capturedFramesRef (handleFrames exampleTicks openState) =
     [''b'', ''c'', ''d'', ''e'', ''f'', ''g'', ''h'', ''i'', ''j'', ''k'', ''l'', ''m''] \<and>
   retained exampleTicks openState =
     [(5000, ''a''), (10000, ''b''), (15000, ''c''), (20000, ''d''), (25000, ''e''),
      (30000, ''f''), (35000, ''g''), (40000, ''h''), (45000, ''i''), (50000, ''j''),
      (55000, ''k''), (60000, ''l''), (65000, ''m'')]"
  by (simp add: exampleTicks_def tick_def openState_def initial_def handleFrame_def invoke_def
        retainFrame_def retains_def emit_def Let_def FRAME_CAPTURE_INTERVAL_def
        MAX_FRAMES_FOR_FEEDBACK_def)

theorem frame_buffer_last_retained_witness:
  "length (capturedFramesRef openState) \<le> MAX_FRAMES_FOR_FEEDBACK \<and>
   map snd (retained exampleTicks openState) =
     [''a'', ''b'', ''c'', ''d'', ''e'', ''f'', ''g'', ''h'', ''i'', ''j'', ''k'', ''l'', ''m''] \<and>
   capturedFramesRef (handleFrames exampleTicks openState) =
     [''b'', ''c'', ''d'', ''e'', ''f'', ''g'', ''h'', ''i'', ''j'', ''k'', ''l'', ''m''] \<and>
   capturedFramesRef (handleFrames exampleTicks openState) =
     lastN MAX_FRAMES_FOR_FEEDBACK
       (capturedFramesRef openState @ map snd (retained exampleTicks openState)) \<and>
   capturedFramesRef (fst (handleFrame (\<lambda>e. None) 5000 ''a'' openState)) \<noteq> capturedFramesRef openState \<and>
   5000 - lastFrameCaptureTimeRef openState \<ge> FRAME_CAPTURE_INTERVAL"
proof -
  have l: "length (capturedFramesRef openState) \<le> MAX_FRAMES_FOR_FEEDBACK"
    by (simp add: openState_def initial_def)
  have c: "capturedFramesRef (fst (handleFrame (\<lambda>e. None) 5000 ''a'' openState)) \<noteq> capturedFramesRef openState"
    by (simp add: openState_def initial_def handleFrame_def invoke_def
        retainFrame_def emit_def Let_def FRAME_CAPTURE_INTERVAL_def MAX_FRAMES_FOR_FEEDBACK_def)
  note t = frame_buffer_last_retained [OF l, of exampleTicks "\<lambda>e. None" 5000 "''a''"]
  have 1: "capturedFramesRef (handleFrames exampleTicks openState) =
     lastN MAX_FRAMES_FOR_FEEDBACK
       (capturedFramesRef openState @ map snd (retained exampleTicks openState))"
    using t by blast
  have 2: "5000 - lastFrameCaptureTimeRef openState \<ge> FRAME_CAPTURE_INTERVAL"
    using t c by blast
  have 3: "map snd (retained exampleTicks openState) =
     [''a'', ''b'', ''c'', ''d'', ''e'', ''f'', ''g'', ''h'', ''i'', ''j'', ''k'', ''l'', ''m'']"
    using example_run by simp
  show ?thesis
    using l c example_run 1 2 3 by blast
qed

section \<open>Teardown: order, safety, repetition\<close>

lemma closeSession_eq:
  "closeSession platform s =
     (if sessionRef s
      then (s\<lparr> sessionRef := False,
               effects := effects s @ SessionClose #
                 (case platform SessionClose of None \<Rightarrow> []
                  | Some e \<Rightarrow> [ConsoleError ''Error closing session:'' (Some e)]) \<rparr>, None)
      else (s, None))"
  by (cases "platform SessionClose") (simp_all add: closeSession_def invoke_def emit_def)

lemma disconnectProcessor_eq:
  "disconnectProcessor platform s =
     (s\<lparr> scriptProcessorRef := False,
         effects := effects s @ (if scriptProcessorRef s then [Disconnect ScriptProcessor] else []) \<rparr>,
      None)"
  by (auto simp add: disconnectProcessor_def emit_def intro!: app.equality)

lemma disconnectMediaSource_eq:
  "disconnectMediaSource platform s =
     (s\<lparr> mediaSourceRef := False,
         effects := effects s @ (if mediaSourceRef s then [Disconnect MediaSource] else []) \<rparr>,
      None)"
  by (auto simp add: disconnectMediaSource_def emit_def intro!: app.equality)

lemma stopStream_eq:
  "stopStream s =
     s\<lparr> streamRef := None,
        effects := effects s @ (case streamRef s of None \<Rightarrow> [] | Some tracks \<Rightarrow> map TrackStop tracks) \<rparr>"
  by (auto simp add: stopStream_def intro!: app.equality split: option.splits)

lemma cleanup_eq:
  "cleanup platform s =
     (s\<lparr> isSessionOpenRef := False, scriptProcessorRef := False, mediaSourceRef := False,
         streamRef := None, sourcesRef := [], nextStartTimeRef := 0,
         effects := effects s @ teardownOrder s \<rparr>, None)"
  by (simp add: cleanup_def disconnectProcessor_eq disconnectMediaSource_eq stopStream_eq
        clearSources_def resetCursor_def emit_def teardownOrder_def)


lemma generateFeedbackStart_eq:
  "generateFeedbackStart transcript videoFrames jd resume key s =
     (if orElse key (interviewContextApiKey s) = [] \<or> transcript = [] then (s, False)
      else (s\<lparr> isGeneratingFeedback := True,
               effects := effects s @
                 [GenerateContent (orElse key (interviewContextApiKey s)) jd resume transcript videoFrames] \<rparr>,
            True))"
  by (simp add: generateFeedbackStart_def Let_def emit_def)

lemma orElse_same: "orElse (Some k) k = k"
  by (simp add: orElse_def)

lemma stopSession_eq:
  "stopSession platform t s =
     (s\<lparr> sessionRef := False, isSessionOpenRef := False, scriptProcessorRef := False,
         mediaSourceRef := False, streamRef := None, sourcesRef := [], nextStartTimeRef := 0,
         isActive := False, isConnecting := False, isSpeaking := False, statusMessage := [],
         capturedFramesRef := [], lastFrameCaptureTimeRef := 0,
         isGeneratingFeedback :=
           (t \<noteq> [] \<and> interviewContextApiKey s \<noteq> []) \<or> isGeneratingFeedback s,
         effects := effects s @
           (if sessionRef s
            then SessionClose #
                 (case platform SessionClose of None \<Rightarrow> []
                  | Some e \<Rightarrow> [ConsoleError ''Error closing session:'' (Some e)])
            else []) @
           teardownOrder s @
           (if t \<noteq> [] \<and> interviewContextApiKey s \<noteq> []
            then [GenerateContent (interviewContextApiKey s) (Some (interviewContextJd s))
                    (Some (interviewContextResume s)) t (capturedFramesRef s)]
            else []) \<rparr>, None)"
proof (cases "t \<noteq> [] \<and> interviewContextApiKey s \<noteq> []")
  case True
  then show ?thesis
    by (simp add: stopSession_def closeSession_eq cleanup_eq generateFeedbackStart_eq
          orElse_same Let_def teardownOrder_def)
next
  case False
  then show ?thesis
    by (auto simp add: stopSession_def closeSession_eq cleanup_eq generateFeedbackStart_eq
          orElse_same Let_def teardownOrder_def)
qed

lemma stopSession_returns: "snd (stopSession platform t s) = None"
  by (simp add: stopSession_eq)

lemma speakingAgrees_stopSession: "speakingAgrees (fst (stopSession platform t s))"
  by (simp add: speakingAgrees_def stopSession_eq)

lemma teardownOrder_steps: "filter teardownStep (teardownOrder s) = teardownOrder s"
  by (simp add: teardownOrder_def split: option.splits)

lemma list_all_teardownOrder: "list_all teardownStep (teardownOrder s)"
  by (simp add: teardownOrder_def list_all_iff split: option.splits) auto

lemma stopSession_added:
  "added s (fst (stopSession platform t s)) =
     (if sessionRef s
      then SessionClose #
           (case platform SessionClose of None \<Rightarrow> []
            | Some e \<Rightarrow> [ConsoleError ''Error closing session:'' (Some e)])
      else []) @
     teardownOrder s @
     (if t \<noteq> [] \<and> interviewContextApiKey s \<noteq> []
      then [GenerateContent (interviewContextApiKey s) (Some (interviewContextJd s))
              (Some (interviewContextResume s)) t (capturedFramesRef s)]
      else [])"
  by (simp add: stopSession_eq added_def)

lemma stopSession_order:
  "\<exists>pre post. added s (fst (stopSession platform t s)) = pre @ teardownOrder s @ post \<and>
      list_all (\<lambda>e. \<not> teardownStep e) pre \<and> list_all (\<lambda>e. \<not> teardownStep e) post"
proof -
  let ?pre = "if sessionRef s
      then SessionClose #
           (case platform SessionClose of None \<Rightarrow> []
            | Some e \<Rightarrow> [ConsoleError ''Error closing session:'' (Some e)])
      else []"
  let ?post = "if t \<noteq> [] \<and> interviewContextApiKey s \<noteq> []
      then [GenerateContent (interviewContextApiKey s) (Some (interviewContextJd s))
              (Some (interviewContextResume s)) t (capturedFramesRef s)]
      else []"
  have "added s (fst (stopSession platform t s)) = ?pre @ teardownOrder s @ ?post"
    by (simp only: stopSession_added)
  moreover have "list_all (\<lambda>e. \<not> teardownStep e) ?pre"
    by (simp split: option.splits)
  moreover have "list_all (\<lambda>e. \<not> teardownStep e) ?post"
    by simp
  ultimately show ?thesis by blast
qed

lemma stopSession_filter:
  "filter teardownStep (added s (fst (stopSession platform t s))) = teardownOrder s"
  by (simp add: stopSession_added teardownOrder_steps split: option.splits)

lemma stopSession_twice:
  "stopSession platform' t' (fst (stopSession platform t s)) =
     ((fst (stopSession platform t s))
        \<lparr> isGeneratingFeedback :=
            (t' \<noteq> [] \<and> interviewContextApiKey s \<noteq> []) \<or>
            isGeneratingFeedback (fst (stopSession platform t s)),
          effects := effects (fst (stopSession platform t s)) @
            [SetSessionOpen False, SourcesClear, CursorReset] @
            (if t' \<noteq> [] \<and> interviewContextApiKey s \<noteq> []
             then [GenerateContent (interviewContextApiKey s) (Some (interviewContextJd s))
                     (Some (interviewContextResume s)) t' []]
             else []) \<rparr>, None)"
proof -
  define s1 where "s1 = fst (stopSession platform t s)"
  have f: "\<not> sessionRef s1" "\<not> isSessionOpenRef s1" "\<not> scriptProcessorRef s1"
    "\<not> mediaSourceRef s1" "streamRef s1 = None" "sourcesRef s1 = []" "nextStartTimeRef s1 = 0"
    "\<not> isActive s1" "\<not> isConnecting s1" "\<not> isSpeaking s1" "statusMessage s1 = []"
    "capturedFramesRef s1 = []" "lastFrameCaptureTimeRef s1 = 0"
    "interviewContextApiKey s1 = interviewContextApiKey s"
    "interviewContextJd s1 = interviewContextJd s"
    "interviewContextResume s1 = interviewContextResume s"
    unfolding s1_def by (simp_all add: stopSession_eq)
  have o: "teardownOrder s1 = [SetSessionOpen False, SourcesClear, CursorReset]"
    using f by (simp add: teardownOrder_def)
  have "fst (stopSession platform' t' s1) =
      s1\<lparr> isGeneratingFeedback :=
            (t' \<noteq> [] \<and> interviewContextApiKey s \<noteq> []) \<or> isGeneratingFeedback s1,
          effects := effects s1 @ [SetSessionOpen False, SourcesClear, CursorReset] @
            (if t' \<noteq> [] \<and> interviewContextApiKey s \<noteq> []
             then [GenerateContent (interviewContextApiKey s) (Some (interviewContextJd s))
                     (Some (interviewContextResume s)) t' []]
             else []) \<rparr>"
    using f o by (intro app.equality) (simp_all add: stopSession_eq [of platform' t' s1])
  then show ?thesis
    using stopSession_returns [of platform' t' s1]
    by (simp add: s1_def prod_eq_iff)
qed

lemma stopSession_generating:
  "t \<noteq> [] \<and> interviewContextApiKey s \<noteq> [] \<Longrightarrow> isGeneratingFeedback (fst (stopSession platform t s))"
  by (simp add: stopSession_eq)

lemma history_apart:
  "g = isGeneratingFeedback x \<Longrightarrow>
   (x\<lparr> isGeneratingFeedback := g, effects := E \<rparr>)\<lparr> effects := effects x \<rparr> = x"
  by simp

lemma stopSession_twice_state:
  assumes "t' = t \<or> t' = []"
  shows "(fst (stopSession platform' t' (fst (stopSession platform t s))))
      \<lparr> effects := effects (fst (stopSession platform t s)) \<rparr> = fst (stopSession platform t s)"
proof -
  have "((t' \<noteq> [] \<and> interviewContextApiKey s \<noteq> []) \<or>
          isGeneratingFeedback (fst (stopSession platform t s))) =
        isGeneratingFeedback (fst (stopSession platform t s))"
    using assms stopSession_generating [of t s platform] by blast
  then show ?thesis
    unfolding stopSession_twice fst_conv by (rule history_apart)
qed

text \<open>
  C7. From every state, on every platform (also one on which every guarded call throws),
  \<^verbatim>\<open>stopSession\<close> returns without an exception. The teardown steps it makes are those of
  \<open>teardownOrder\<close>, in that order and with nothing in between: the open flag to false, the
  audio nodes disconnected, the tracks of the stream stopped, every source stopped and the
  set cleared, the cursor reset; before them comes only the closing of the session handle,
  after them only the feedback request. Afterwards every resource is released. A second
  stop returns without an exception, makes no call on a resource and leaves the state as
  the first stop left it (the history of calls apart), both when it holds the same
  transcript as the first and when it holds an empty one, as the stop called from the
  close and error callbacks of a session started with an empty transcript does; in the
  latter case it writes the flag, clears the set, resets the cursor and does nothing else.
\<close>

theorem stop_teardown_order:
  "snd (stopSession platform t s) = None \<and>
   (\<exists>pre post. added s (fst (stopSession platform t s)) = pre @ teardownOrder s @ post \<and>
      list_all (\<lambda>e. \<not> teardownStep e) pre \<and> list_all (\<lambda>e. \<not> teardownStep e) post) \<and>
   filter teardownStep (added s (fst (stopSession platform t s))) = teardownOrder s \<and>
   \<not> isSessionOpenRef (fst (stopSession platform t s)) \<and>
   \<not> sessionRef (fst (stopSession platform t s)) \<and>
   \<not> scriptProcessorRef (fst (stopSession platform t s)) \<and>
   \<not> mediaSourceRef (fst (stopSession platform t s)) \<and>
   streamRef (fst (stopSession platform t s)) = None \<and>
   sourcesRef (fst (stopSession platform t s)) = [] \<and>
   nextStartTimeRef (fst (stopSession platform t s)) = 0 \<and>
   \<not> isActive (fst (stopSession platform t s)) \<and>
   \<not> isSpeaking (fst (stopSession platform t s)) \<and>
   snd (stopSession platform' t' (fst (stopSession platform t s))) = None \<and>
   list_all (\<lambda>e. \<not> resourceCall e)
     (added (fst (stopSession platform t s))
        (fst (stopSession platform' t' (fst (stopSession platform t s))))) \<and>
   (fst (stopSession platform' t (fst (stopSession platform t s))))
      \<lparr> effects := effects (fst (stopSession platform t s)) \<rparr> = fst (stopSession platform t s) \<and>
   (fst (stopSession platform' [] (fst (stopSession platform t s))))
      \<lparr> effects := effects (fst (stopSession platform t s)) \<rparr> = fst (stopSession platform t s) \<and>
   added (fst (stopSession platform t s))
     (fst (stopSession platform' [] (fst (stopSession platform t s)))) =
     [SetSessionOpen False, SourcesClear, CursorReset]"
proof -
  let ?s1 = "fst (stopSession platform t s)"
  have f: "\<not> isSessionOpenRef ?s1" "\<not> sessionRef ?s1" "\<not> scriptProcessorRef ?s1"
    "\<not> mediaSourceRef ?s1" "streamRef ?s1 = None" "sourcesRef ?s1 = []"
    "nextStartTimeRef ?s1 = 0" "\<not> isActive ?s1" "\<not> isSpeaking ?s1"
    by (simp_all add: stopSession_eq)
  have r: "list_all (\<lambda>e. \<not> resourceCall e) (added ?s1 (fst (stopSession platform' t' ?s1)))"
    by (simp add: stopSession_twice added_def)
  have i: "(fst (stopSession platform' t ?s1))\<lparr> effects := effects ?s1 \<rparr> = ?s1"
    by (rule stopSession_twice_state) simp
  have j: "(fst (stopSession platform' [] ?s1))\<lparr> effects := effects ?s1 \<rparr> = ?s1"
    by (rule stopSession_twice_state) simp
  have k: "added ?s1 (fst (stopSession platform' [] ?s1)) = [SetSessionOpen False, SourcesClear, CursorReset]"
    by (simp add: stopSession_twice added_def)
  show ?thesis
    using f i j k r stopSession_returns stopSession_order stopSession_filter by blast
qed

lemma playingState_fields:
  "sessionRef playingState \<and> scriptProcessorRef playingState \<and> mediaSourceRef playingState \<and>
   streamRef playingState = Some [0] \<and> sourcesRef playingState = [0, 1] \<and>
   interviewContextApiKey playingState = ''key''"
  by (simp add: playingState_def chunkA_def envA_def msgA_def bufferA_def chunkB_def
        handleMessage_Some audioBranch_def Let_def emit_def emptyMsg_def quietEnv_def
        openState_def initial_def interruptBranch_eq turnCompleteBranch_def outputBranch_def
        inputBranch_def duration_def set_add_def)

theorem stop_teardown_order_witness:
  "snd (stopSession throwing [] initial) = None \<and>
   added initial (fst (stopSession throwing [] initial)) = [SetSessionOpen False, SourcesClear, CursorReset] \<and>
   snd (stopSession throwing [] playingState) = None \<and>
   added playingState (fst (stopSession throwing [] playingState)) =
     [SessionClose, ConsoleError ''Error closing session:'' (Some (Error ''InvalidStateError'')),
      SetSessionOpen False, Disconnect ScriptProcessor, Disconnect MediaSource, TrackStop 0,
      SourceStop 0, SourceStop 1, SourcesClear, CursorReset] \<and>
   filter teardownStep (added playingState (fst (stopSession throwing [] playingState))) =
     [SetSessionOpen False, Disconnect ScriptProcessor, Disconnect MediaSource, TrackStop 0,
      SourceStop 0, SourceStop 1, SourcesClear, CursorReset] \<and>
   sourcesRef (fst (stopSession throwing [] playingState)) = [] \<and>
   added (fst (stopSession throwing [] playingState))
     (fst (stopSession throwing [] (fst (stopSession throwing [] playingState)))) =
     [SetSessionOpen False, SourcesClear, CursorReset]"
proof -
  have a: "added initial (fst (stopSession throwing [] initial)) = [SetSessionOpen False, SourcesClear, CursorReset]"
    by (simp add: stopSession_added teardownOrder_def initial_def)
  have b: "added playingState (fst (stopSession throwing [] playingState)) =
     [SessionClose, ConsoleError ''Error closing session:'' (Some (Error ''InvalidStateError'')),
      SetSessionOpen False, Disconnect ScriptProcessor, Disconnect MediaSource, TrackStop 0,
      SourceStop 0, SourceStop 1, SourcesClear, CursorReset]"
    by (simp add: stopSession_added teardownOrder_def playingState_fields throwing_def)
  have c: "teardownOrder playingState =
     [SetSessionOpen False, Disconnect ScriptProcessor, Disconnect MediaSource, TrackStop 0,
      SourceStop 0, SourceStop 1, SourcesClear, CursorReset]"
    by (simp add: teardownOrder_def playingState_fields)
  have d: "added (fst (stopSession throwing [] playingState))
     (fst (stopSession throwing [] (fst (stopSession throwing [] playingState)))) =
     [SetSessionOpen False, SourcesClear, CursorReset]"
    by (simp add: stopSession_twice added_def)
  show ?thesis
    using a b c d
      stop_teardown_order [where platform = throwing and t = "[]" and s = initial
        and platform' = throwing and t' = "[]"]
      stop_teardown_order [where platform = throwing and t = "[]" and s = playingState
        and platform' = throwing and t' = "[]"]
    by simp
qed

section \<open>Feedback synthesizer: guard and failures\<close>

lemma generateFeedback_skipped:
  "transcript = [] \<or> orElse key (interviewContextApiKey s) = [] \<Longrightarrow>
   generateFeedback outcome transcript videoFrames jd resume key s = (s, None)"
  by (auto simp add: generateFeedback_def generateFeedbackStart_eq)

lemma generateFeedback_run:
  assumes "transcript \<noteq> []" "orElse key (interviewContextApiKey s) \<noteq> []"
  shows "generateFeedback outcome transcript videoFrames jd resume key s =
    (case outcome of
       Inl err \<Rightarrow>
         (s\<lparr> endFeedback := Some failureMessage, isGeneratingFeedback := False,
             effects := effects s @
               [GenerateContent (orElse key (interviewContextApiKey s)) jd resume transcript videoFrames,
                ConsoleError ''Error generating feedback:'' (Some err)] \<rparr>, None)
     | Inr responseText \<Rightarrow>
         (s\<lparr> endFeedback := Some (orElse responseText emptyResponseMessage),
             isGeneratingFeedback := False,
             effects := effects s @
               [GenerateContent (orElse key (interviewContextApiKey s)) jd resume transcript videoFrames] \<rparr>,
          None))"
  using assms
  by (cases outcome)
     (simp_all add: generateFeedback_def generateFeedbackStart_eq generateFeedbackSettle_def emit_def)

text \<open>
  C8. When the transcript that \<^verbatim>\<open>stopSession\<close> holds is empty or the stored key is empty,
  stopping makes no request to the batch endpoint and leaves the feedback text and the
  generating flag as they were; \<^verbatim>\<open>generateFeedback\<close> itself, given an empty transcript or
  no key (neither the argument nor the stored one), returns with the state unchanged.
  Conversely a request made by either is made with a non-empty transcript and a non-empty
  key, and stopping with both non-empty makes exactly one, with that transcript, the
  stored key and the retained frames.
\<close>

theorem feedback_needs_transcript_and_key:
  "(t = [] \<or> interviewContextApiKey s = [] \<longrightarrow>
      list_all (\<lambda>e. \<not> isRequest e) (added s (fst (stopSession platform t s))) \<and>
      endFeedback (fst (stopSession platform t s)) = endFeedback s \<and>
      isGeneratingFeedback (fst (stopSession platform t s)) = isGeneratingFeedback s) \<and>
   (transcript = [] \<or> orElse key (interviewContextApiKey s) = [] \<longrightarrow>
      generateFeedback outcome transcript videoFrames jd resume key s = (s, None)) \<and>
   (\<not> list_all (\<lambda>e. \<not> isRequest e) (added s (fst (stopSession platform t s))) \<longrightarrow>
      t \<noteq> [] \<and> interviewContextApiKey s \<noteq> []) \<and>
   (\<not> list_all (\<lambda>e. \<not> isRequest e)
        (added s (fst (generateFeedback outcome transcript videoFrames jd resume key s))) \<longrightarrow>
      transcript \<noteq> [] \<and> orElse key (interviewContextApiKey s) \<noteq> []) \<and>
   (t \<noteq> [] \<and> interviewContextApiKey s \<noteq> [] \<longrightarrow>
      filter isRequest (added s (fst (stopSession platform t s))) =
        [GenerateContent (interviewContextApiKey s) (Some (interviewContextJd s))
           (Some (interviewContextResume s)) t (capturedFramesRef s)])"
proof -
  have n: "list_all (\<lambda>e. \<not> isRequest e) (teardownOrder s)"
    by (simp add: teardownOrder_def list_all_iff split: option.splits) auto
  have 1: "list_all (\<lambda>e. \<not> isRequest e) (added s (fst (stopSession platform t s))) \<and>
      endFeedback (fst (stopSession platform t s)) = endFeedback s \<and>
      isGeneratingFeedback (fst (stopSession platform t s)) = isGeneratingFeedback s"
    if "t = [] \<or> interviewContextApiKey s = []"
  proof -
    have "list_all (\<lambda>e. \<not> isRequest e) (added s (fst (stopSession platform t s)))"
      using that n by (auto simp add: stopSession_added split: option.splits)
    moreover have "endFeedback (fst (stopSession platform t s)) = endFeedback s"
      by (simp add: stopSession_eq)
    moreover have "isGeneratingFeedback (fst (stopSession platform t s)) = isGeneratingFeedback s"
      using that by (auto simp add: stopSession_eq)
    ultimately show ?thesis by blast
  qed
  have 2: "generateFeedback outcome transcript videoFrames jd resume key s = (s, None)"
    if "transcript = [] \<or> orElse key (interviewContextApiKey s) = []"
    using that by (rule generateFeedback_skipped)
  have 4: "transcript \<noteq> [] \<and> orElse key (interviewContextApiKey s) \<noteq> []"
    if "\<not> list_all (\<lambda>e. \<not> isRequest e)
        (added s (fst (generateFeedback outcome transcript videoFrames jd resume key s)))"
    using that generateFeedback_skipped [of transcript key s outcome videoFrames jd resume]
    by (auto simp add: added_def)
  have f: "filter isRequest (teardownOrder s) = []"
    using n by (simp add: filter_empty_conv list_all_iff)
  have 5: "filter isRequest (added s (fst (stopSession platform t s))) =
        [GenerateContent (interviewContextApiKey s) (Some (interviewContextJd s))
           (Some (interviewContextResume s)) t (capturedFramesRef s)]"
    if "t \<noteq> [] \<and> interviewContextApiKey s \<noteq> []"
    using that f by (simp add: stopSession_added split: option.splits)
  show ?thesis using 1 2 4 5 by blast
qed


theorem feedback_needs_transcript_and_key_witness:
  "([] = ([] :: TranscriptionEntry list) \<or> interviewContextApiKey openState = []) \<and>
   list_all (\<lambda>e. \<not> isRequest e) (added openState (fst (stopSession (\<lambda>e. None) [] openState))) \<and>
   endFeedback (fst (stopSession (\<lambda>e. None) [] openState)) = None \<and>
   generateFeedback (Inr (Some ''ok'')) [] [] None None (Some ''key'') openState = (openState, None) \<and>
   (oneEntry \<noteq> [] \<and> interviewContextApiKey openState \<noteq> []) \<and>
   filter isRequest (added openState (fst (stopSession (\<lambda>e. None) oneEntry openState))) =
     [GenerateContent ''key'' (Some []) (Some []) oneEntry []] \<and>
   \<not> list_all (\<lambda>e. \<not> isRequest e)
       (added openState (fst (stopSession (\<lambda>e. None) oneEntry openState))) \<and>
   \<not> list_all (\<lambda>e. \<not> isRequest e)
       (added openState (fst (generateFeedback (Inr (Some ''ok'')) oneEntry [] None None
                                (Some ''key'') openState))) \<and>
   orElse (Some ''key'') (interviewContextApiKey openState) \<noteq> []"
proof -
  have k: "interviewContextApiKey openState = ''key''" "interviewContextJd openState = []"
    "interviewContextResume openState = []" "capturedFramesRef openState = []"
    "endFeedback openState = None"
    by (simp_all add: openState_def initial_def)
  have o: "oneEntry \<noteq> []" "orElse (Some ''key'') (interviewContextApiKey openState) \<noteq> []"
    by (simp_all add: oneEntry_def orElse_def)
  have n: "interviewContextApiKey openState \<noteq> []"
    by (simp add: k)
  have g: "\<not> list_all (\<lambda>e. \<not> isRequest e)
       (added openState (fst (generateFeedback (Inr (Some ''ok'')) oneEntry [] None None
                                (Some ''key'') openState)))"
    by (simp add: generateFeedback_run [OF o] added_def)
  note t0 = feedback_needs_transcript_and_key [of "[]" openState "\<lambda>e. None" "[]" "Some ''key''"
        "Inr (Some ''ok'')" "[]" None None]
  note t1 = feedback_needs_transcript_and_key [of oneEntry openState "\<lambda>e. None" oneEntry
        "Some ''key''" "Inr (Some ''ok'')" "[]" None None]
  have 1: "list_all (\<lambda>e. \<not> isRequest e) (added openState (fst (stopSession (\<lambda>e. None) [] openState)))"
    "endFeedback (fst (stopSession (\<lambda>e. None) [] openState)) = endFeedback openState"
    using t0 by blast+
  have 2: "generateFeedback (Inr (Some ''ok'')) [] [] None None (Some ''key'') openState = (openState, None)"
    using t0 by blast
  have "filter isRequest (added openState (fst (stopSession (\<lambda>e. None) oneEntry openState))) =
     [GenerateContent (interviewContextApiKey openState) (Some (interviewContextJd openState))
        (Some (interviewContextResume openState)) oneEntry (capturedFramesRef openState)]"
    using t1 o(1) n by blast
  then have f: "filter isRequest (added openState (fst (stopSession (\<lambda>e. None) oneEntry openState))) =
     [GenerateContent ''key'' (Some []) (Some []) oneEntry []]"
    by (simp only: k)
  have r: "\<not> list_all (\<lambda>e. \<not> isRequest e)
       (added openState (fst (stopSession (\<lambda>e. None) oneEntry openState)))"
  proof
    assume "list_all (\<lambda>e. \<not> isRequest e)
       (added openState (fst (stopSession (\<lambda>e. None) oneEntry openState)))"
    then have "filter isRequest (added openState (fst (stopSession (\<lambda>e. None) oneEntry openState))) = []"
      by (simp add: filter_empty_conv list_all_iff)
    with f show False by simp
  qed
  show ?thesis
    using 1 2 k(5) o n g f r by simp
qed

text \<open>
  C9 as stated does not hold: a call that rejects and a response without text end in two
  different messages.
\<close>

theorem feedback_failure_messages_differ:
  "endFeedback (fst (generateFeedback (Inl (Error ''quota exceeded'')) oneEntry [] None None
                       (Some ''key'') initial)) = Some failureMessage \<and>
   endFeedback (fst (generateFeedback (Inr None) oneEntry [] None None
                       (Some ''key'') initial)) = Some emptyResponseMessage \<and>
   endFeedback (fst (generateFeedback (Inl (Error ''quota exceeded'')) oneEntry [] None None
                       (Some ''key'') initial)) \<noteq>
   endFeedback (fst (generateFeedback (Inr None) oneEntry [] None None (Some ''key'') initial))"
  by (simp add: generateFeedback_run oneEntry_def orElse_def failureMessage_def
        emptyResponseMessage_def)

text \<open>
  C9, amended. When the synthesizer runs (non-empty transcript, a key), it returns without
  an exception and with the generating flag false, whatever the call did. A call that
  rejects, with whatever error, leaves the fixed message \<open>failureMessage\<close> as the feedback
  and the error only in the log; a response whose text is missing or empty leaves the
  other fixed message, \<open>emptyResponseMessage\<close>; a response with text leaves that text.
\<close>

theorem feedback_failure_is_fixed_text:
  assumes "transcript \<noteq> []" and "orElse key (interviewContextApiKey s) \<noteq> []"
  shows "snd (generateFeedback outcome transcript videoFrames jd resume key s) = None \<and>
    \<not> isGeneratingFeedback (fst (generateFeedback outcome transcript videoFrames jd resume key s)) \<and>
    (\<forall>err. outcome = Inl err \<longrightarrow>
       endFeedback (fst (generateFeedback outcome transcript videoFrames jd resume key s)) =
         Some failureMessage \<and>
       ConsoleError ''Error generating feedback:'' (Some err)
         \<in> set (added s (fst (generateFeedback outcome transcript videoFrames jd resume key s)))) \<and>
    (outcome = Inr None \<or> outcome = Inr (Some []) \<longrightarrow>
       endFeedback (fst (generateFeedback outcome transcript videoFrames jd resume key s)) =
         Some emptyResponseMessage) \<and>
    (\<forall>txt. outcome = Inr (Some txt) \<and> txt \<noteq> [] \<longrightarrow>
       endFeedback (fst (generateFeedback outcome transcript videoFrames jd resume key s)) = Some txt) \<and>
    failureMessage \<noteq> emptyResponseMessage"
  by (cases outcome)
     (auto simp add: generateFeedback_run [OF assms] added_def orElse_def failureMessage_def
        emptyResponseMessage_def)

theorem feedback_failure_is_fixed_text_witness:
  "(oneEntry \<noteq> [] \<and> orElse (Some ''key'') (interviewContextApiKey initial) \<noteq> []) \<and>
   snd (generateFeedback (Inl (Error ''quota exceeded'')) oneEntry [] None None (Some ''key'') initial) = None \<and>
   endFeedback (fst (generateFeedback (Inl (Error ''quota exceeded'')) oneEntry [] None None
                       (Some ''key'') initial)) = Some failureMessage \<and>
   ConsoleError ''Error generating feedback:'' (Some (Error ''quota exceeded''))
     \<in> set (added initial (fst (generateFeedback (Inl (Error ''quota exceeded'')) oneEntry [] None
                                  None (Some ''key'') initial))) \<and>
   endFeedback (fst (generateFeedback (Inr None) oneEntry [] None None (Some ''key'') initial)) =
     Some emptyResponseMessage \<and>
   endFeedback (fst (generateFeedback (Inr (Some ''Well done'')) oneEntry [] None None
                       (Some ''key'') initial)) = Some ''Well done''"
proof -
  have a: "oneEntry \<noteq> []" "orElse (Some ''key'') (interviewContextApiKey initial) \<noteq> []"
    by (simp_all add: oneEntry_def orElse_def)
  note t0 = feedback_failure_is_fixed_text [OF a, of "Inl (Error ''quota exceeded'')" "[]" None None]
  note t1 = feedback_failure_is_fixed_text [OF a, of "Inr None" "[]" None None]
  note t2 = feedback_failure_is_fixed_text [OF a, of "Inr (Some ''Well done'')" "[]" None None]
  have 0: "snd (generateFeedback (Inl (Error ''quota exceeded'')) oneEntry [] None None (Some ''key'') initial) = None"
    "endFeedback (fst (generateFeedback (Inl (Error ''quota exceeded'')) oneEntry [] None None
                       (Some ''key'') initial)) = Some failureMessage"
    "ConsoleError ''Error generating feedback:'' (Some (Error ''quota exceeded''))
     \<in> set (added initial (fst (generateFeedback (Inl (Error ''quota exceeded'')) oneEntry [] None
                                  None (Some ''key'') initial)))"
    using t0 by blast+
  have 1: "endFeedback (fst (generateFeedback (Inr None) oneEntry [] None None (Some ''key'') initial)) =
     Some emptyResponseMessage"
    using t1 by blast
  have w: "''Well done'' \<noteq> []" by simp
  have 2: "endFeedback (fst (generateFeedback (Inr (Some ''Well done'')) oneEntry [] None None
                       (Some ''key'') initial)) = Some ''Well done''"
    using t2 w by blast
  show ?thesis
    using a 0 1 2 by blast
qed

end
